theory Spec2Isabelle
  imports Complex_Main "HOL-Library.Multiset"
begin

section \<open>Elo calculator (backend/src/utils/elo.utils.ts)\<close>

text \<open>
  In the Elo formula JavaScript numbers are read as real numbers: \<open>Math.pow(10, x)\<close> is
  \<open>10 powr x\<close>, and \<open>Math.round\<close>, which rounds to the nearest integer with halves going
  up, is \<open>\<lfloor>x + 1/2\<rfloor>\<close>. The scores that \<open>finalizeMatch\<close> compares are computed with the
  rounding of double-precision arithmetic (see below), since a tie depends on it.
\<close>

definition K_FACTOR :: real where
  "K_FACTOR = 32"

definition Math_round :: "real \<Rightarrow> int" where
  "Math_round x = \<lfloor>x + 1 / 2\<rfloor>"

definition getExpectedScore :: "real \<Rightarrow> real \<Rightarrow> real" where
  "getExpectedScore playerRating opponentRating =
     (let ratingDiff = opponentRating - playerRating
      in 1 / (1 + 10 powr (ratingDiff / 400)))"

definition calculateEloChange :: "real \<Rightarrow> real \<Rightarrow> real \<Rightarrow> int" where
  "calculateEloChange playerRating opponentRating result =
     (let expected = getExpectedScore playerRating opponentRating;
          change = K_FACTOR * (result - expected)
      in Math_round change)"

definition calculateNewRating :: "real \<Rightarrow> real \<Rightarrow> real \<Rightarrow> int" where
  "calculateNewRating currentRating opponentRating result =
     (let change = calculateEloChange currentRating opponentRating result;
          newRating = currentRating + of_int change
      in max 0 (Math_round newRating))"

section \<open>Double-precision arithmetic\<close>

text \<open>
  A JavaScript number is an IEEE 754 double. \<open>fl x\<close> is the double nearest to the real
  number \<open>x\<close>, ties going to the even significand: the significand has 53 bits, and below
  \<open>2 powr (- 1022)\<close> the spacing stays that of the smallest normal numbers. Overflow to
  \<open>Infinity\<close> (from \<open>2 ^ 1024\<close> on) and \<open>NaN\<close> are not modelled. The product and the sum
  of two doubles are the exact results rounded, and a literal such as \<open>0.8\<close> is \<open>fl 0.8\<close>.
\<close>

definition round_even :: "real \<Rightarrow> int" where
  "round_even y =
     (let f = \<lfloor>y\<rfloor>
      in if y - of_int f < 1 / 2 then f
         else if 1 / 2 < y - of_int f then f + 1
         else if even f then f else f + 1)"

definition fl :: "real \<Rightarrow> real" where
  "fl x =
     (if x = 0 then 0
      else let e = max \<lfloor>log 2 \<bar>x\<bar>\<rfloor> (- 1022);
               ulp = 2 powr (of_int e - 52)
           in ulp * of_int (round_even (x / ulp)))"

definition double_mul :: "real \<Rightarrow> real \<Rightarrow> real" where
  "double_mul x y = fl (x * y)"

definition double_add :: "real \<Rightarrow> real \<Rightarrow> real" where
  "double_add x y = fl (x + y)"

section \<open>Data model (packages/contracts/src/pvp.ts)\<close>

text \<open>
  Dates are milliseconds since the epoch. \<open>elo\<close> is an integer: every value the backend
  writes is either the initial 1000 or an old rating plus a \<open>Math.round\<close> result. Typing
  speed and accuracy are the numbers the client reports.
\<close>

datatype match_status = Active | Completed | Cancelled

record PvPRanking =
  userId :: string
  username :: string
  elo :: int
  wins :: nat
  losses :: nat
  matches :: nat
  lastMatchAt :: "int option"
  createdAt :: int
  updatedAt :: int

record PvPMatch =
  m_id :: string
  player1Id :: string
  player1Username :: string
  player2Id :: string
  player2Username :: string
  player1Wpm :: real
  player1Accuracy :: real
  player2Wpm :: real
  player2Accuracy :: real
  winnerId :: "string option"
  winnerName :: "string option"
  player1EloChange :: int
  player2EloChange :: int
  matchDuration :: int
  status :: match_status
  m_createdAt :: int
  completedAt :: "int option"

record MatchProgress =
  mp_userId :: string
  mp_wpm :: real
  mp_accuracy :: real
  mp_timestamp :: int

record MatchResultPayload =
  res_matchId :: string
  res_winnerId :: "string option"
  res_winnerName :: "string option"
  res_player1Id :: string
  res_player1Name :: string
  res_player1Wpm :: real
  res_player1Accuracy :: real
  res_player1EloChange :: int
  res_player2Id :: string
  res_player2Name :: string
  res_player2Wpm :: real
  res_player2Accuracy :: real
  res_player2EloChange :: int
  res_matchDuration :: int

text \<open>The events the services emit, one constructor per event name, with its payload.\<close>

datatype server_event =
    MatchFound string string string int
      \<comment> \<open>\<open>pvp:match_found\<close>: matchId, opponent id, opponent username, opponent elo\<close>
  | GameStart string string string string string int int
      \<comment> \<open>\<open>pvp:game_start\<close>: matchId, player1 id and username, player2 id and username,
          startTime, testDuration\<close>
  | OpponentProgress string real real int
      \<comment> \<open>\<open>pvp:opponent_progress\<close>: matchId, opponentWpm, opponentAccuracy, timestamp\<close>
  | MatchResult MatchResultPayload
      \<comment> \<open>\<open>pvp:match_result\<close>\<close>
  | MatchTimeout string string
      \<comment> \<open>\<open>pvp:match_timeout\<close>: matchId, message\<close>
  | QueueTimeout string
      \<comment> \<open>\<open>pvp:queue_timeout\<close>: message\<close>

datatype error = StorageError | DuplicateKey

section \<open>Server state\<close>

text \<open>
  A collection is the list of its documents in storage order. \<open>faults\<close> is the schedule of
  the coming storage round trips: \<open>True\<close> makes the next call throw, and an empty schedule
  means that storage works. \<open>sockets\<close> is the Socket.IO server \<open>io\<close>: \<open>None\<close> before
  \<open>initializeSocket\<close>, else the connected sockets as pairs of socket id and
  \<open>socket.data.userId\<close>. \<open>delivered\<close> records every \<open>socket.emit\<close>, oldest first.
  \<open>progress\<close> is the \<open>MatchProgressTracker\<close> and \<open>activeMatches\<close> the match ids that
  hold a timeout timer. Logger calls are left out.
\<close>

record backend =
  pvp_rankings :: "PvPRanking list"
  pvp_matches :: "PvPMatch list"
  faults :: "bool list"
  sockets :: "(string \<times> string) list option"
  delivered :: "((string \<times> string) \<times> server_event) list"
  progress :: "string \<rightharpoonup> MatchProgress"
  activeMatches :: "string set"

definition storage_call :: "backend \<Rightarrow> bool \<times> backend" where
  "storage_call w =
     (case faults w of [] \<Rightarrow> (False, w) | f # fs \<Rightarrow> (f, w\<lparr>faults := fs\<rparr>))"

fun update_first :: "('a \<Rightarrow> bool) \<Rightarrow> ('a \<Rightarrow> 'a) \<Rightarrow> 'a list \<Rightarrow> 'a list" where
  "update_first P f [] = []"
| "update_first P f (x # xs) = (if P x then f x # xs else x # update_first P f xs)"

section \<open>Socket layer (backend/src/init/socket.ts)\<close>

definition emitToUser :: "string \<Rightarrow> server_event \<Rightarrow> backend \<Rightarrow> backend" where
  "emitToUser uid ev w =
     (case sockets w of
        None \<Rightarrow> w
      | Some ss \<Rightarrow>
          w\<lparr>delivered := delivered w @ map (\<lambda>s. (s, ev)) (filter (\<lambda>s. snd s = uid) ss)\<rparr>)"

section \<open>Data access layer (src/unnamed/part_000, imported as dal/pvp)\<close>

text \<open>
  A \<open>Partial\<close> document passed to \<open>$set\<close> is the function that overwrites those fields.
  \<open>cursor.limit(0)\<close> means no limit in MongoDB. The order MongoDB gives to documents with
  equal sort keys is not specified; the model takes the stable order.
\<close>

definition getRanking :: "string \<Rightarrow> backend \<Rightarrow> (error + PvPRanking option) \<times> backend" where
  "getRanking uid w =
     (let (f, w1) = storage_call w
      in if f then (Inl StorageError, w1)
         else (Inr (find (\<lambda>r. userId r = uid) (pvp_rankings w1)), w1))"

definition createRanking :: "PvPRanking \<Rightarrow> backend \<Rightarrow> (error + PvPRanking) \<times> backend" where
  "createRanking ranking w =
     (let (f, w1) = storage_call w
      in if f then (Inl StorageError, w1)
         else if \<exists>r \<in> set (pvp_rankings w1). userId r = userId ranking
         then (case getRanking (userId ranking) w1 of
                 (Inl e, w2) \<Rightarrow> (Inl e, w2)
               | (Inr (Some existing), w2) \<Rightarrow> (Inr existing, w2)
               | (Inr None, w2) \<Rightarrow> (Inl DuplicateKey, w2))
         else (Inr ranking, w1\<lparr>pvp_rankings := pvp_rankings w1 @ [ranking]\<rparr>))"

definition updateRanking ::
  "string \<Rightarrow> (PvPRanking \<Rightarrow> PvPRanking) \<Rightarrow> int \<Rightarrow> backend \<Rightarrow> (error + PvPRanking option) \<times> backend" where
  "updateRanking uid updates now w =
     (let (f, w1) = storage_call w
      in if f then (Inl StorageError, w1)
         else let set_fields = (\<lambda>r. (updates r)\<lparr>updatedAt := now\<rparr>)
              in (Inr (map_option set_fields (find (\<lambda>r. userId r = uid) (pvp_rankings w1))),
                  w1\<lparr>pvp_rankings :=
                       update_first (\<lambda>r. userId r = uid) set_fields (pvp_rankings w1)\<rparr>))"

definition sort_elo_desc :: "PvPRanking list \<Rightarrow> PvPRanking list" where
  "sort_elo_desc rs = sort_key (\<lambda>r. - elo r) rs"

definition cursor_limit :: "nat \<Rightarrow> 'a list \<Rightarrow> 'a list" where
  "cursor_limit n xs = (if n = 0 then xs else take n xs)"

definition getLeaderboard ::
  "nat \<Rightarrow> nat \<Rightarrow> backend \<Rightarrow> (error + PvPRanking list \<times> nat) \<times> backend" where
  "getLeaderboard limit offset w =
     (let (f1, w1) = storage_call w;
          (f2, w2) = storage_call w1
      in if f1 \<or> f2 then (Inl StorageError, w2)
         else (Inr (cursor_limit limit (drop offset (sort_elo_desc (pvp_rankings w2))),
                    length (pvp_rankings w2)), w2))"

definition createMatch :: "PvPMatch \<Rightarrow> backend \<Rightarrow> (error + PvPMatch) \<times> backend" where
  "createMatch m w =
     (let (f, w1) = storage_call w
      in if f then (Inl StorageError, w1)
         else if \<exists>x \<in> set (pvp_matches w1). m_id x = m_id m then (Inl DuplicateKey, w1)
         else (Inr m, w1\<lparr>pvp_matches := pvp_matches w1 @ [m]\<rparr>))"

definition getMatch :: "string \<Rightarrow> backend \<Rightarrow> (error + PvPMatch option) \<times> backend" where
  "getMatch matchId w =
     (let (f, w1) = storage_call w
      in if f then (Inl StorageError, w1)
         else (Inr (find (\<lambda>m. m_id m = matchId) (pvp_matches w1)), w1))"

definition updateMatch ::
  "string \<Rightarrow> (PvPMatch \<Rightarrow> PvPMatch) \<Rightarrow> backend \<Rightarrow> (error + PvPMatch option) \<times> backend" where
  "updateMatch matchId updates w =
     (let (f, w1) = storage_call w
      in if f then (Inl StorageError, w1)
         else (Inr (map_option updates (find (\<lambda>m. m_id m = matchId) (pvp_matches w1))),
               w1\<lparr>pvp_matches :=
                    update_first (\<lambda>m. m_id m = matchId) updates (pvp_matches w1)\<rparr>))"

section \<open>Match service (backend/src/services/pvp-match.service.ts)\<close>

text \<open>
  Every exported function wraps its body in \<open>try\<close>/\<open>catch\<close>: when an awaited storage call
  throws, the handler logs and returns, keeping what it has done so far. \<open>attempt\<close> is
  that pattern. A handler runs as one step, at the time \<open>now\<close>.
\<close>

definition attempt :: "(error + 'a) \<times> backend \<Rightarrow> ('a \<Rightarrow> backend \<Rightarrow> backend) \<Rightarrow> backend" where
  "attempt r k = (case r of (Inl e, w) \<Rightarrow> w | (Inr x, w) \<Rightarrow> k x w)"

definition MATCH_TIMEOUT :: int where
  "MATCH_TIMEOUT = 120000"


definition clearMatch :: "string \<Rightarrow> string \<Rightarrow> backend \<Rightarrow> backend" where
  "clearMatch p1 p2 w = w\<lparr>progress := ((progress w)(p1 := None))(p2 := None)\<rparr>"

definition startMatch :: "string \<Rightarrow> int \<Rightarrow> backend \<Rightarrow> backend" where
  "startMatch matchId now w =
     attempt (getMatch matchId w) (\<lambda>found w1.
       case found of
         None \<Rightarrow> w1
       | Some m \<Rightarrow>
           let gameStartPayload =
                 GameStart matchId (player1Id m) (player1Username m)
                   (player2Id m) (player2Username m) now 60;
               w2 = emitToUser (player1Id m) gameStartPayload w1;
               w3 = emitToUser (player2Id m) gameStartPayload w2
           in w3\<lparr>activeMatches := insert matchId (activeMatches w3)\<rparr>)"

definition storeStats :: "string \<Rightarrow> string \<Rightarrow> PvPMatch \<Rightarrow> real \<Rightarrow> real \<Rightarrow> backend
    \<Rightarrow> (error + unit) \<times> backend" where
  \<comment> \<open>the \<open>if (userId === match.player1Id) ... else if (userId === match.player2Id)\<close>
      update shared by \<open>handleProgressUpdate\<close> and \<open>handleMatchComplete\<close>\<close>
  "storeStats matchId uid m wpm accuracy w =
     (if uid = player1Id m then
        (case updateMatch matchId (\<lambda>x. x\<lparr>player1Wpm := wpm, player1Accuracy := accuracy\<rparr>) w of
           (Inl e, w1) \<Rightarrow> (Inl e, w1) | (Inr _, w1) \<Rightarrow> (Inr (), w1))
      else if uid = player2Id m then
        (case updateMatch matchId (\<lambda>x. x\<lparr>player2Wpm := wpm, player2Accuracy := accuracy\<rparr>) w of
           (Inl e, w1) \<Rightarrow> (Inl e, w1) | (Inr _, w1) \<Rightarrow> (Inr (), w1))
      else (Inr (), w))"


definition player1Score :: "PvPMatch \<Rightarrow> real" where
  \<comment> \<open>\<open>match.player1Wpm * 0.8 + match.player1Accuracy * 0.2\<close>, in doubles\<close>
  "player1Score m =
     double_add (double_mul (player1Wpm m) (fl 0.8)) (double_mul (player1Accuracy m) (fl 0.2))"

definition player2Score :: "PvPMatch \<Rightarrow> real" where
  "player2Score m =
     double_add (double_mul (player2Wpm m) (fl 0.8)) (double_mul (player2Accuracy m) (fl 0.2))"

definition selectWinner :: "PvPMatch \<Rightarrow> string option \<times> string option" where
  \<comment> \<open>\<open>winnerId\<close> and \<open>winnerName\<close>, both \<open>null\<close> unless one score is strictly higher\<close>
  "selectWinner m =
     (if player1Score m > player2Score m then (Some (player1Id m), Some (player1Username m))
      else if player2Score m > player1Score m then (Some (player2Id m), Some (player2Username m))
      else (None, None))"

definition p1Result :: "PvPMatch \<Rightarrow> string option \<Rightarrow> real" where
  "p1Result m winner =
     (if winner = Some (player1Id m) then 1 else if winner = Some (player2Id m) then 0 else 0.5)"

definition p2Result :: "PvPMatch \<Rightarrow> string option \<Rightarrow> real" where
  "p2Result m winner =
     (if winner = Some (player2Id m) then 1 else if winner = Some (player1Id m) then 0 else 0.5)"

definition rankingUpdate ::
  "string \<Rightarrow> string option \<Rightarrow> PvPRanking \<Rightarrow> int \<Rightarrow> int \<Rightarrow> PvPRanking \<Rightarrow> PvPRanking" where
  \<comment> \<open>the fields \<open>finalizeMatch\<close> passes to \<open>updateRanking\<close> for the player \<open>pid\<close>, computed
      from the ranking \<open>snap\<close> read before the update\<close>
  "rankingUpdate pid winner snap eloChange now =
     (\<lambda>r. r\<lparr>elo := elo snap + eloChange,
            wins := (if Some pid = winner then wins snap + 1 else wins snap),
            losses := (if Some pid \<noteq> winner \<and> winner \<noteq> None then losses snap + 1 else losses snap),
            matches := matches snap + 1,
            lastMatchAt := Some now\<rparr>)"

definition computeMatchDuration :: "PvPMatch \<Rightarrow> int" where
  "computeMatchDuration m =
     (case completedAt m of
        Some completed \<Rightarrow> (completed - m_createdAt m) div 1000
      | None \<Rightarrow> 60)"

definition resultPayload ::
  "string \<Rightarrow> PvPMatch \<Rightarrow> string option \<Rightarrow> string option \<Rightarrow> int \<Rightarrow> int \<Rightarrow> int
    \<Rightarrow> MatchResultPayload" where
  "resultPayload matchId m winner wname p1EloChange p2EloChange duration =
     \<lparr>res_matchId = matchId, res_winnerId = winner, res_winnerName = wname,
      res_player1Id = player1Id m, res_player1Name = player1Username m,
      res_player1Wpm = player1Wpm m, res_player1Accuracy = player1Accuracy m,
      res_player1EloChange = p1EloChange,
      res_player2Id = player2Id m, res_player2Name = player2Username m,
      res_player2Wpm = player2Wpm m, res_player2Accuracy = player2Accuracy m,
      res_player2EloChange = p2EloChange,
      res_matchDuration = duration\<rparr>"

definition finalizeMatch :: "string \<Rightarrow> int \<Rightarrow> backend \<Rightarrow> backend" where
  "finalizeMatch matchId now w =
     attempt (getMatch matchId w) (\<lambda>found w1.
       case found of
         None \<Rightarrow> w1
       | Some m \<Rightarrow>
           let w2 = w1\<lparr>activeMatches := activeMatches w1 - {matchId}\<rparr>;
               (winner, wname) = selectWinner m
           in attempt (getRanking (player1Id m) w2) (\<lambda>r1 w3.
              attempt (getRanking (player2Id m) w3) (\<lambda>r2 w4.
                case (r1, r2) of
                  (Some p1Ranking, Some p2Ranking) \<Rightarrow>
                    let p1EloChange = calculateEloChange (of_int (elo p1Ranking))
                                        (of_int (elo p2Ranking)) (p1Result m winner);
                        p2EloChange = calculateEloChange (of_int (elo p2Ranking))
                                        (of_int (elo p1Ranking)) (p2Result m winner)
                    in attempt (updateRanking (player1Id m)
                                  (rankingUpdate (player1Id m) winner p1Ranking p1EloChange now)
                                  now w4) (\<lambda>_ w5.
                       attempt (updateRanking (player2Id m)
                                  (rankingUpdate (player2Id m) winner p2Ranking p2EloChange now)
                                  now w5) (\<lambda>_ w6.
                         let duration = computeMatchDuration m
                         in attempt (updateMatch matchId
                                       (\<lambda>x. x\<lparr>winnerId := winner, winnerName := wname,
                                               player1EloChange := p1EloChange,
                                               player2EloChange := p2EloChange,
                                               matchDuration := duration,
                                               status := Completed,
                                               completedAt := Some now\<rparr>) w6) (\<lambda>_ w7.
                              let payload = MatchResult (resultPayload matchId m winner wname
                                                           p1EloChange p2EloChange duration);
                                  w8 = emitToUser (player1Id m) payload w7;
                                  w9 = emitToUser (player2Id m) payload w8
                              in clearMatch (player1Id m) (player2Id m) w9)))
                | _ \<Rightarrow> w4)))"

definition handleMatchComplete ::
  "string \<Rightarrow> string \<Rightarrow> real \<Rightarrow> real \<Rightarrow> int \<Rightarrow> backend \<Rightarrow> backend" where
  "handleMatchComplete matchId uid finalWpm finalAccuracy now w =
     attempt (getMatch matchId w) (\<lambda>found w1.
       case found of
         None \<Rightarrow> w1
       | Some m \<Rightarrow>
           if status m \<noteq> Active then w1
           else
             attempt (storeStats matchId uid m finalWpm finalAccuracy w1) (\<lambda>_ w2.
             attempt (getMatch matchId w2) (\<lambda>updatedMatch w3.
               case updatedMatch of
                 None \<Rightarrow> w3
               | Some u \<Rightarrow>
                   if player1Wpm u > 0 \<and> player2Wpm u > 0 then finalizeMatch matchId now w3
                   else w3)))"

definition handleMatchTimeout :: "string \<Rightarrow> int \<Rightarrow> backend \<Rightarrow> backend" where
  "handleMatchTimeout matchId now w =
     attempt (getMatch matchId w) (\<lambda>found w1.
       case found of
         None \<Rightarrow> w1
       | Some m \<Rightarrow>
           if status m \<noteq> Active then w1
           else
             attempt (updateMatch matchId
                        (\<lambda>x. x\<lparr>status := Completed, completedAt := Some now\<rparr>) w1) (\<lambda>_ w2.
               let w3 = emitToUser (player1Id m)
                          (MatchTimeout matchId ''Match timeout - game ended'') w2;
                   w4 = emitToUser (player2Id m)
                          (MatchTimeout matchId ''Match timeout - game ended'') w3
               in clearMatch (player1Id m) (player2Id m) w4))"

section \<open>Matchmaking queue (src/unnamed/part_001, imported as services/pvp-queue.service)\<close>

record QueueEntry =
  q_userId :: string
  q_username :: string
  socketId :: string
  joinedAt :: int

record PvPQueue =
  queue :: "QueueEntry list"
  userInQueue :: "string set"

definition QUEUE_TIMEOUT :: int where
  "QUEUE_TIMEOUT = 30000"

definition CLEANUP_INTERVAL :: int where
  "CLEANUP_INTERVAL = 5000"

text \<open>
  \<open>tryMatch\<close> is an \<open>async\<close> loop: it runs until \<open>await this.createMatch(player1, player2)\<close>,
  is suspended there, and goes on when that call has settled. \<open>tryMatch_head\<close> is the part
  from the loop test to the \<open>await\<close>: it returns the pair whose match is being created, or
  \<open>None\<close> when the loop ends. \<open>requeue\<close> is the \<open>catch\<close> block. \<open>tryMatch_resume\<close> is what
  runs when the awaited call has settled with the result \<open>r\<close>: the \<open>catch\<close> block if it
  threw, then the loop again.
\<close>

definition tryMatch_head :: "PvPQueue \<Rightarrow> (QueueEntry \<times> QueueEntry) option \<times> PvPQueue" where
  "tryMatch_head q =
     (case queue q of
        player1 # player2 # rest \<Rightarrow>
          (Some (player1, player2),
           q\<lparr>queue := rest,
             userInQueue := userInQueue q - {q_userId player1} - {q_userId player2}\<rparr>)
      | _ \<Rightarrow> (None, q))"

definition requeue :: "QueueEntry \<Rightarrow> QueueEntry \<Rightarrow> PvPQueue \<Rightarrow> PvPQueue" where
  "requeue player1 player2 q =
     q\<lparr>queue := queue q @ [player1, player2],
       userInQueue := insert (q_userId player2) (insert (q_userId player1) (userInQueue q))\<rparr>"

definition tryMatch_resume ::
  "error + unit \<Rightarrow> QueueEntry \<times> QueueEntry \<Rightarrow> PvPQueue
    \<Rightarrow> (QueueEntry \<times> QueueEntry) option \<times> PvPQueue" where
  "tryMatch_resume r players q =
     tryMatch_head (case r of
                      Inl e \<Rightarrow> requeue (fst players) (snd players) q
                    | Inr _ \<Rightarrow> q)"

text \<open>
  \<open>join\<close> calls \<open>tryMatch\<close> without awaiting it, so the size it returns is read when
  \<open>tryMatch\<close> is suspended for the first time. Besides the size and the queue, the model
  returns the pair whose match creation \<open>join\<close> has left pending.
\<close>

definition join ::
  "string \<Rightarrow> string \<Rightarrow> string \<Rightarrow> int \<Rightarrow> PvPQueue
    \<Rightarrow> nat \<times> (QueueEntry \<times> QueueEntry) option \<times> PvPQueue" where
  "join uid name sid now q =
     (if uid \<in> userInQueue q then (length (queue q), None, q)
      else
        let entry = \<lparr>q_userId = uid, q_username = name, socketId = sid, joinedAt = now\<rparr>;
            q1 = q\<lparr>queue := queue q @ [entry], userInQueue := insert uid (userInQueue q)\<rparr>;
            (awaited, q2) = tryMatch_head q1
        in (length (queue q2), awaited, q2))"

fun findIndex :: "('a \<Rightarrow> bool) \<Rightarrow> 'a list \<Rightarrow> nat option" where
  "findIndex P [] = None"
| "findIndex P (x # xs) = (if P x then Some 0 else map_option Suc (findIndex P xs))"

definition leave :: "string \<Rightarrow> PvPQueue \<Rightarrow> bool \<times> PvPQueue" where
  "leave uid q =
     (case findIndex (\<lambda>entry. q_userId entry = uid) (queue q) of
        None \<Rightarrow> (False, q)
      | Some index \<Rightarrow>
          (True, q\<lparr>queue := take index (queue q) @ drop (Suc index) (queue q),
                  userInQueue := userInQueue q - {uid}\<rparr>))"

definition getSize :: "PvPQueue \<Rightarrow> nat" where
  "getSize q = length (queue q)"

definition isInQueue :: "string \<Rightarrow> PvPQueue \<Rightarrow> bool" where
  "isInQueue uid q = (uid \<in> userInQueue q)"

definition and_then ::
  "(error + 'a) \<times> backend \<Rightarrow> ('a \<Rightarrow> backend \<Rightarrow> (error + 'b) \<times> backend)
    \<Rightarrow> (error + 'b) \<times> backend" where
  \<comment> \<open>an awaited call outside any \<open>try\<close>: its exception leaves the caller\<close>
  "and_then r k = (case r of (Inl e, w) \<Rightarrow> (Inl e, w) | (Inr x, w) \<Rightarrow> k x w)"

definition newRanking :: "QueueEntry \<Rightarrow> int \<Rightarrow> PvPRanking" where
  "newRanking player now =
     \<lparr>userId = q_userId player, username = q_username player, elo = 1000,
      wins = 0, losses = 0, matches = 0, lastMatchAt = None,
      createdAt = now, updatedAt = now\<rparr>"

definition ensureRanking :: "QueueEntry \<Rightarrow> int \<Rightarrow> backend \<Rightarrow> (error + PvPRanking) \<times> backend" where
  \<comment> \<open>\<open>let r = await getRanking(id); r ??= await createRanking({...})\<close>\<close>
  "ensureRanking player now w =
     and_then (getRanking (q_userId player) w) (\<lambda>found w1.
       case found of
         Some r \<Rightarrow> (Inr r, w1)
       | None \<Rightarrow> createRanking (newRanking player now) w1)"

definition newMatch :: "string \<Rightarrow> QueueEntry \<Rightarrow> QueueEntry \<Rightarrow> int \<Rightarrow> PvPMatch" where
  "newMatch matchId player1 player2 now =
     \<lparr>m_id = matchId,
      player1Id = q_userId player1, player1Username = q_username player1,
      player2Id = q_userId player2, player2Username = q_username player2,
      player1Wpm = 0, player1Accuracy = 0, player2Wpm = 0, player2Accuracy = 0,
      winnerId = None, winnerName = None, player1EloChange = 0, player2EloChange = 0,
      matchDuration = 0, status = Active, m_createdAt = now, completedAt = None\<rparr>"

definition PvPQueue_createMatch ::
  "QueueEntry \<Rightarrow> QueueEntry \<Rightarrow> string \<Rightarrow> int \<Rightarrow> backend \<Rightarrow> (error + unit) \<times> backend" where
  \<comment> \<open>the private method \<open>createMatch\<close> of the queue; \<open>matchId\<close> is the value of \<open>uuidv4()\<close>\<close>
  "PvPQueue_createMatch player1 player2 matchId now w =
     and_then (ensureRanking player1 now w) (\<lambda>p1Ranking w1.
     and_then (ensureRanking player2 now w1) (\<lambda>p2Ranking w2.
     and_then (createMatch (newMatch matchId player1 player2 now) w2) (\<lambda>_ w3.
       let w4 = emitToUser (q_userId player1)
                  (MatchFound matchId (q_userId player2) (q_username player2) (elo p2Ranking)) w3;
           w5 = emitToUser (q_userId player2)
                  (MatchFound matchId (q_userId player1) (q_username player1) (elo p1Ranking)) w4
       in (Inr (), w5))))"

fun cleanupEntries ::
  "int \<Rightarrow> QueueEntry list \<Rightarrow> string set \<Rightarrow> backend \<Rightarrow> QueueEntry list \<times> string set \<times> backend" where
  "cleanupEntries now [] members w = ([], members, w)"
| "cleanupEntries now (entry # entries) members w =
     (let age = now - joinedAt entry
      in if age > QUEUE_TIMEOUT
         then cleanupEntries now entries (members - {q_userId entry})
                (emitToUser (q_userId entry) (QueueTimeout ''Queue timeout - you were removed'') w)
         else (case cleanupEntries now entries members w of
                 (kept, members', w') \<Rightarrow> (entry # kept, members', w')))"

definition cleanupStaleEntries :: "int \<Rightarrow> PvPQueue \<Rightarrow> backend \<Rightarrow> PvPQueue \<times> backend" where
  "cleanupStaleEntries now q w =
     (case cleanupEntries now (queue q) (userInQueue q) w of
        (kept, members, w') \<Rightarrow> (q\<lparr>queue := kept, userInQueue := members\<rparr>, w'))"

subsection \<open>The queue service as a transition system\<close>

text \<open>
  Node runs one handler at a time up to its next \<open>await\<close>. The observable states of the
  queue service are those between such steps: the queue object, the backend, and the
  \<open>tryMatch\<close> calls that are suspended, each with the pair whose match it is creating.
  A step is a \<open>join\<close>, a \<open>leave\<close>, a run of the cleanup job, or the settling of one pending
  \<open>createMatch\<close> (taken as a single step) followed by the rest of that \<open>tryMatch\<close>.
  A step happens at one time. \<open>createMatch\<close> reads \<open>new Date()\<close> when it is called, that
  is in the step that takes the pair out of the queue: \<open>started\<close> keeps that time for
  each pending call, in the order of \<open>pending\<close>. The value of \<open>uuidv4()\<close>, which nothing
  reads before the creation settles, comes with the \<open>Settle\<close> event.
\<close>

record server =
  pvpQueue :: PvPQueue
  world :: backend
  pending :: "(QueueEntry \<times> QueueEntry) list"
  started :: "int list"

datatype queue_event =
    Join string string string int
  | Leave string
  | Cleanup int
  | Settle nat string int

definition suspended :: "(QueueEntry \<times> QueueEntry) option \<Rightarrow> (QueueEntry \<times> QueueEntry) list" where
  "suspended awaited = (case awaited of None \<Rightarrow> [] | Some players \<Rightarrow> [players])"

fun step :: "queue_event \<Rightarrow> server \<Rightarrow> server" where
  "step (Join uid name sid now) s =
     (case join uid name sid now (pvpQueue s) of
        (n, awaited, q') \<Rightarrow>
          s\<lparr>pvpQueue := q', pending := pending s @ suspended awaited,
            started := started s @ map (\<lambda>_. now) (suspended awaited)\<rparr>)"
| "step (Leave uid) s = s\<lparr>pvpQueue := snd (leave uid (pvpQueue s))\<rparr>"
| "step (Cleanup now) s =
     (case cleanupStaleEntries now (pvpQueue s) (world s) of
        (q', w') \<Rightarrow> s\<lparr>pvpQueue := q', world := w'\<rparr>)"
| "step (Settle i matchId now) s =
     (if i < length (pending s) \<and> i < length (started s) then
        let players = pending s ! i;
            (r, w') = PvPQueue_createMatch (fst players) (snd players) matchId
                        (started s ! i) (world s);
            (awaited, q') = tryMatch_resume r players (pvpQueue s)
        in s\<lparr>pvpQueue := q', world := w',
             pending := take i (pending s) @ drop (Suc i) (pending s) @ suspended awaited,
             started := take i (started s) @ drop (Suc i) (started s)
                          @ map (\<lambda>_. now) (suspended awaited)\<rparr>
      else s)"

definition run :: "queue_event list \<Rightarrow> server \<Rightarrow> server" where
  "run events s = fold step events s"

definition boot :: "backend \<Rightarrow> server" where
  "boot w =
     \<lparr>pvpQueue = \<lparr>queue = [], userInQueue = {}\<rparr>, world = w, pending = [], started = []\<rparr>"

section \<open>Auxiliary notions and scenarios\<close>


definition player :: "string \<Rightarrow> QueueEntry" where
  "player uid = \<lparr>q_userId = uid, q_username = uid, socketId = ''socket-'' @ uid, joinedAt = 0\<rparr>"

definition rated :: "string \<Rightarrow> int \<Rightarrow> PvPRanking" where
  "rated uid rating = (newRanking (player uid) 0)\<lparr>elo := rating\<rparr>"

definition played :: "real \<Rightarrow> real \<Rightarrow> real \<Rightarrow> real \<Rightarrow> PvPMatch" where
  \<comment> \<open>the match \<open>m1\<close> of alice against bob, created at time 0, with the stats stored so far\<close>
  "played wpm1 acc1 wpm2 acc2 =
     (newMatch ''m1'' (player ''alice'') (player ''bob'') 0)
       \<lparr>player1Wpm := wpm1, player1Accuracy := acc1,
        player2Wpm := wpm2, player2Accuracy := acc2\<rparr>"

definition arena :: "PvPRanking list \<Rightarrow> PvPMatch list \<Rightarrow> backend" where
  \<comment> \<open>a backend whose storage works, with alice, bob and carol connected\<close>
  "arena rs ms =
     \<lparr>pvp_rankings = rs, pvp_matches = ms, faults = [],
      sockets = Some [(''s1'', ''alice''), (''s2'', ''bob''), (''s3'', ''carol'')],
      delivered = [], progress = Map.empty, activeMatches = {''m1''}\<rparr>"

definition weightedScore :: "real \<Rightarrow> real \<Rightarrow> real" where
  \<comment> \<open>the score \<open>finalizeMatch\<close> computes for a player with these stats\<close>
  "weightedScore wpm accuracy =
     double_add (double_mul wpm (fl 0.8)) (double_mul accuracy (fl 0.2))"

definition outage :: backend where
  \<comment> \<open>an empty backend whose next storage call throws\<close>
  "outage = (arena [] [])\<lparr>faults := [True]\<rparr>"

definition ranks_before :: "PvPRanking \<Rightarrow> PvPRanking \<Rightarrow> bool" where
  \<comment> \<open>the order the specification gives the leaderboard: \<open>elo\<close> descending, ties broken
      by \<open>updatedAt\<close> ascending\<close>
  "ranks_before a b = (elo a > elo b \<or> (elo a = elo b \<and> updatedAt a \<le> updatedAt b))"

definition at_rest :: "PvPQueue \<Rightarrow> bool" where
  \<comment> \<open>between two steps the loop of \<open>tryMatch\<close> has taken every pair out of the queue\<close>
  "at_rest q = (length (queue q) \<le> 1)"

definition consistent :: "PvPQueue \<Rightarrow> bool" where
  \<comment> \<open>the membership set holds exactly the users in the queue, each of them once\<close>
  "consistent q =
     (distinct (map q_userId (queue q)) \<and> userInQueue q = set (map q_userId (queue q)))"

definition created :: "queue_event \<Rightarrow> server \<Rightarrow> bool" where
  \<comment> \<open>the event is not the settling of a match creation that throws\<close>
  "created e s =
     (case e of
        Settle i matchId now \<Rightarrow>
          i < length (pending s) \<and> i < length (started s) \<longrightarrow>
          \<not> isl (fst (PvPQueue_createMatch (fst (pending s ! i)) (snd (pending s ! i))
                         matchId (started s ! i) (world s)))
      | _ \<Rightarrow> True)"

fun all_created :: "queue_event list \<Rightarrow> server \<Rightarrow> bool" where
  "all_created [] s = True"
| "all_created (e # es) s = (created e s \<and> all_created es (step e s))"

section \<open>Basic facts about the model\<close>

subsection \<open>Rounding and the Elo formula\<close>

lemma floor_refl_nonint:
  fixes y :: real
  assumes "y \<notin> \<int>"
  shows "\<lfloor>y\<rfloor> + \<lfloor>1 - y\<rfloor> = 0"
proof -
  have ne: "y \<noteq> of_int \<lfloor>y\<rfloor>" using assms by (metis Ints_of_int)
  have lo: "of_int \<lfloor>y\<rfloor> < y" using ne of_int_floor_le [of y] by linarith
  have hi: "y < of_int \<lfloor>y\<rfloor> + 1" by linarith
  have "\<lfloor>1 - y\<rfloor> = - \<lfloor>y\<rfloor>"
  proof (rule floor_unique)
    show "of_int (- \<lfloor>y\<rfloor>) \<le> 1 - y" using hi by simp linarith
    show "1 - y < of_int (- \<lfloor>y\<rfloor>) + 1" using lo by simp
  qed
  then show ?thesis by simp
qed

lemma half_odd:
  fixes d :: int and m :: int
  assumes odd: "odd m" and eq: "of_int m * (10 powr (real_of_int d / 400)) = (of_int (64 - m) :: real)"
  shows False
proof -
  let ?t = "10 powr (real_of_int d / 400) :: real"
  have p: "?t ^ 400 = (10::real) powr (real_of_int d)"
  proof -
    have "?t ^ 400 = ?t powr (real (400::nat))"
      by (subst powr_realpow) simp_all
    also have "\<dots> = 10 powr (real_of_int d / 400 * real (400::nat))"
      by (simp only: powr_powr)
    also have "\<dots> = 10 powr (real_of_int d)" by simp
    finally show ?thesis .
  qed
  have e400: "of_int (m ^ 400) * ?t ^ 400 = (of_int ((64 - m) ^ 400) :: real)"
  proof -
    have "(of_int m * ?t) ^ 400 = (of_int (64 - m) :: real) ^ 400" using eq by simp
    then show ?thesis by (simp only: power_mult_distrib of_int_power)
  qed
  have o1: "odd (m ^ 400)" using odd by simp
  have o2: "odd ((64 - m) ^ 400)" using odd by simp
  show False
  proof (cases "d \<le> 0")
    case True
    then have "(10::real) powr (real_of_int d) = 1 / 10 ^ nat (- d)"
      by (cases "d = 0") (simp_all add: powr_int)
    with p have "?t ^ 400 = 1 / 10 ^ nat (- d)" by simp
    with e400 have "of_int (m ^ 400) / 10 ^ nat (- d) = (of_int ((64 - m) ^ 400) :: real)"
      by simp
    then have "of_int (m ^ 400) = (of_int ((64 - m) ^ 400) :: real) * 10 ^ nat (- d)"
      by (simp add: divide_eq_eq)
    then have "of_int (m ^ 400) = (of_int ((64 - m) ^ 400 * 10 ^ nat (- d)) :: real)"
      by simp
    then have i: "m ^ 400 = (64 - m) ^ 400 * 10 ^ nat (- d)"
      by (simp only: of_int_eq_iff)
    show False
    proof (cases "d = 0")
      case True
      with eq have "(of_int m :: real) = of_int (64 - m)" by simp
      then have "m = 64 - m" by (simp only: of_int_eq_iff)
      then have "m = 32" by simp
      with odd show False by simp
    next
      case False
      with True have "0 < nat (- d)" by simp
      then have "even ((10::int) ^ nat (- d))" by simp
      then have "even ((64 - m) ^ 400 * 10 ^ nat (- d))" by simp
      with i o1 show False by simp
    qed
  next
    case False
    then have pos: "0 < nat d" by simp
    from False have "(10::real) powr (real_of_int d) = 10 ^ nat d"
      by (simp add: powr_int)
    with p e400 have "(of_int (m ^ 400 * 10 ^ nat d) :: real) = of_int ((64 - m) ^ 400)"
      by simp
    then have i: "m ^ 400 * 10 ^ nat d = (64 - m) ^ 400"
      by (simp only: of_int_eq_iff)
    from pos have "even ((10::int) ^ nat d)" by simp
    then have "even (m ^ 400 * 10 ^ nat d)" by simp
    with i o2 show False by simp
  qed
qed

lemma elo_change_antisym:
  fixes a b :: int and r :: real
  assumes r: "r = 0 \<or> r = 1 / 2 \<or> r = 1"
  shows "calculateEloChange (of_int a) (of_int b) r
         + calculateEloChange (of_int b) (of_int a) (1 - r) = 0"
proof -
  define t :: real where "t = 10 powr (real_of_int (b - a) / 400)"
  have tpos: "0 < t" by (simp add: t_def)
  have inv: "10 powr ((real_of_int a - real_of_int b) / 400) = 1 / t"
  proof -
    have "(real_of_int a - real_of_int b) / 400 = - (real_of_int (b - a) / 400)" by (simp add: field_simps)
    then show ?thesis by (simp only: t_def powr_minus inverse_eq_divide)
  qed
  define y :: real where "y = 32 * (r - 1 / (1 + t)) + 1 / 2"
  have c1: "calculateEloChange (of_int a) (of_int b) r = \<lfloor>y\<rfloor>"
    by (simp add: calculateEloChange_def getExpectedScore_def K_FACTOR_def Math_round_def
        y_def t_def)
  have "32 * ((1 - r) - 1 / (1 + 1 / t)) + 1 / 2 = 1 - y"
    using tpos by (simp add: y_def field_simps)
  then have c2: "calculateEloChange (of_int b) (of_int a) (1 - r) = \<lfloor>1 - y\<rfloor>"
    by (simp add: calculateEloChange_def getExpectedScore_def K_FACTOR_def Math_round_def inv)
  have "y \<notin> \<int>"
  proof
    assume "y \<in> \<int>"
    then obtain n :: int where n: "y = of_int n" by (auto elim: Ints_cases)
    define m :: int where "m = (if r = 0 then 1 else if r = 1 then 65 else 33) - 2 * n"
    have odd: "odd m" by (simp add: m_def)
    have "64 * r + 1 - 2 * real_of_int n = of_int m"
      using r by (auto simp: m_def)
    moreover have "64 / (1 + t) = 64 * r + 1 - 2 * y"
      by (simp add: y_def)
    ultimately have "64 / (1 + t) = of_int m" using n by simp
    then have "of_int m * (1 + t) = 64" using tpos by (simp add: field_simps)
    then have "of_int m * t = (of_int (64 - m) :: real)" by (simp add: algebra_simps)
    then show False unfolding t_def by (rule half_odd [OF odd])
  qed
  then have "\<lfloor>y\<rfloor> + \<lfloor>1 - y\<rfloor> = 0" by (rule floor_refl_nonint)
  with c1 c2 show ?thesis by simp
qed

lemma elo_equal_loss: "calculateEloChange (of_int a) (of_int a) 0 = -16"
  by (simp add: calculateEloChange_def getExpectedScore_def K_FACTOR_def Math_round_def)

lemma elo_equal_win: "calculateEloChange (of_int a) (of_int a) 1 = 16"
  by (simp add: calculateEloChange_def getExpectedScore_def K_FACTOR_def Math_round_def)

subsection \<open>Scores in double precision\<close>

lemma fl_eval:
  fixes x :: real and s :: nat
  assumes s: "s \<le> 1074"
    and lo: "2 ^ 52 \<le> \<bar>x\<bar> * 2 ^ s"
    and hi: "\<bar>x\<bar> * 2 ^ s < 2 ^ 53"
  shows "fl x = of_int (round_even (x * 2 ^ s)) / 2 ^ s"
proof -
  have nz: "x \<noteq> 0" using lo by auto
  then have pos: "0 < \<bar>x\<bar>" by simp
  have p: "(2::real) powr (52 - real s) = 2 ^ 52 / 2 ^ s"
    by (simp add: powr_diff powr_realpow)
  have p1: "(2::real) powr (53 - real s) = 2 ^ 53 / 2 ^ s"
    by (simp add: powr_diff powr_realpow)
  have "2 ^ 52 / 2 ^ s \<le> \<bar>x\<bar>" using lo by (simp add: pos_divide_le_eq)
  then have "52 - real s \<le> log 2 \<bar>x\<bar>"
    using pos by (simp add: le_log_iff p)
  moreover have "\<bar>x\<bar> < 2 ^ 53 / 2 ^ s" using hi by (simp add: pos_less_divide_eq)
  then have "log 2 \<bar>x\<bar> < 53 - real s"
    using pos by (simp add: log_less_iff p1)
  ultimately have e: "\<lfloor>log 2 \<bar>x\<bar>\<rfloor> = 52 - int s"
    by (intro floor_unique) simp_all
  have m: "max (52 - int s) (- 1022) = 52 - int s" using s by simp
  have u: "(2::real) powr (- real s) = 1 / 2 ^ s"
    by (simp add: powr_minus powr_realpow inverse_eq_divide)
  have "fl x = 2 powr (- real s) * of_int (round_even (x / 2 powr (- real s)))"
    using nz by (simp add: fl_def e m Let_def)
  also have "\<dots> = of_int (round_even (x * 2 ^ s)) / 2 ^ s"
    by (simp only: u) simp
  finally show ?thesis .
qed

lemma fl_0_8: "fl 0.8 = 3602879701896397 / 4503599627370496"
  by (simp add: fl_eval [where s = 53] round_even_def)

lemma fl_0_2: "fl 0.2 = 3602879701896397 / 18014398509481984"
  by (simp add: fl_eval [where s = 55] round_even_def)

lemma player1Score_weighted:
  "player1Score m = weightedScore (player1Wpm m) (player1Accuracy m)"
  by (simp add: player1Score_def weightedScore_def)

lemma player2Score_weighted:
  "player2Score m = weightedScore (player2Wpm m) (player2Accuracy m)"
  by (simp add: player2Score_def weightedScore_def)

lemma score_50_90: "weightedScore 50 90 = 58"
proof -
  have a: "fl (50 * (3602879701896397 / 4503599627370496)) = (40 :: real)"
    by (simp add: fl_eval [where s = 47] round_even_def)
  have b: "fl (90 * (3602879701896397 / 18014398509481984)) = (18 :: real)"
    by (simp add: fl_eval [where s = 48] round_even_def)
  have c: "fl (40 + 18) = (58 :: real)"
    by (simp add: fl_eval [where s = 47] round_even_def)
  show ?thesis
    unfolding weightedScore_def double_add_def double_mul_def fl_0_8 fl_0_2 a b c ..
qed

lemma score_60_90: "weightedScore 60 90 = 66"
proof -
  have a: "fl (60 * (3602879701896397 / 4503599627370496)) = (48 :: real)"
    by (simp add: fl_eval [where s = 47] round_even_def)
  have b: "fl (90 * (3602879701896397 / 18014398509481984)) = (18 :: real)"
    by (simp add: fl_eval [where s = 48] round_even_def)
  have c: "fl (48 + 18) = (66 :: real)"
    by (simp add: fl_eval [where s = 46] round_even_def)
  show ?thesis
    unfolding weightedScore_def double_add_def double_mul_def fl_0_8 fl_0_2 a b c ..
qed

lemma score_80_95: "weightedScore 80 95 = 83"
proof -
  have a: "fl (80 * (3602879701896397 / 4503599627370496)) = (64 :: real)"
    by (simp add: fl_eval [where s = 46] round_even_def)
  have b: "fl (95 * (3602879701896397 / 18014398509481984)) = (19 :: real)"
    by (simp add: fl_eval [where s = 48] round_even_def)
  have c: "fl (64 + 19) = (83 :: real)"
    by (simp add: fl_eval [where s = 46] round_even_def)
  show ?thesis
    unfolding weightedScore_def double_add_def double_mul_def fl_0_8 fl_0_2 a b c ..
qed

lemma score_70_97: "weightedScore 70 97 = 2652901655497933 / 35184372088832"
proof -
  have a: "fl (70 * (3602879701896397 / 4503599627370496)) = (56 :: real)"
    by (simp add: fl_eval [where s = 47] round_even_def)
  have b: "fl (97 * (3602879701896397 / 18014398509481984)) = (5460614548186727 / 281474976710656 :: real)"
    by (simp add: fl_eval [where s = 48] round_even_def)
  have c: "fl (56 + (5460614548186727 / 281474976710656)) = (2652901655497933 / 35184372088832 :: real)"
    by (simp add: fl_eval [where s = 46] round_even_def)
  show ?thesis
    unfolding weightedScore_def double_add_def double_mul_def fl_0_8 fl_0_2 a b c ..
qed



subsection \<open>Storage calls when storage works\<close>

lemma storage_call_ok: "faults w = [] \<Longrightarrow> storage_call w = (False, w)"
  by (simp add: storage_call_def)

lemma getMatch_ok:
  "faults w = [] \<Longrightarrow> getMatch matchId w = (Inr (find (\<lambda>m. m_id m = matchId) (pvp_matches w)), w)"
  by (simp add: getMatch_def storage_call_ok)

lemma getRanking_ok:
  "faults w = [] \<Longrightarrow> getRanking uid w = (Inr (find (\<lambda>r. userId r = uid) (pvp_rankings w)), w)"
  by (simp add: getRanking_def storage_call_ok)

lemma updateMatch_ok:
  "faults w = [] \<Longrightarrow> updateMatch matchId f w =
     (Inr (map_option f (find (\<lambda>m. m_id m = matchId) (pvp_matches w))),
      w\<lparr>pvp_matches := update_first (\<lambda>m. m_id m = matchId) f (pvp_matches w)\<rparr>)"
  by (simp add: updateMatch_def storage_call_ok)

lemma updateRanking_ok:
  "faults w = [] \<Longrightarrow> updateRanking uid f now w =
     (Inr (map_option (\<lambda>r. (f r)\<lparr>updatedAt := now\<rparr>) (find (\<lambda>r. userId r = uid) (pvp_rankings w))),
      w\<lparr>pvp_rankings := update_first (\<lambda>r. userId r = uid) (\<lambda>r. (f r)\<lparr>updatedAt := now\<rparr>) (pvp_rankings w)\<rparr>)"
  by (simp add: updateRanking_def storage_call_ok Let_def)

lemma attempt_Inr: "attempt (Inr x, w) k = k x w"
  by (simp add: attempt_def)

lemma emitToUser_fields:
  "pvp_rankings (emitToUser u e w) = pvp_rankings w"
  "pvp_matches (emitToUser u e w) = pvp_matches w"
  "faults (emitToUser u e w) = faults w"
  "sockets (emitToUser u e w) = sockets w"
  "progress (emitToUser u e w) = progress w"
  "activeMatches (emitToUser u e w) = activeMatches w"
  by (simp_all add: emitToUser_def split: option.splits)


lemma storeStats_ok:
  "faults w = [] \<Longrightarrow> storeStats matchId uid m wpm acc w =
     (Inr (),
      if uid = player1Id m then
        w\<lparr>pvp_matches := update_first (\<lambda>x. m_id x = matchId)
             (\<lambda>x. x\<lparr>player1Wpm := wpm, player1Accuracy := acc\<rparr>) (pvp_matches w)\<rparr>
      else if uid = player2Id m then
        w\<lparr>pvp_matches := update_first (\<lambda>x. m_id x = matchId)
             (\<lambda>x. x\<lparr>player2Wpm := wpm, player2Accuracy := acc\<rparr>) (pvp_matches w)\<rparr>
      else w)"
  by (simp add: storeStats_def updateMatch_ok)

lemma find_key_update_same:
  "(\<And>x. key (f x) = key x)
    \<Longrightarrow> find (\<lambda>x. key x = a) (update_first (\<lambda>x. key x = a) f xs) = map_option f (find (\<lambda>x. key x = a) xs)"
  by (induction xs) auto



subsection \<open>Finalization when storage works\<close>

lemma finalizeMatch_ok:
  assumes f: "faults w = []"
    and m: "find (\<lambda>x. m_id x = matchId) (pvp_matches w) = Some m"
    and r1: "find (\<lambda>r. userId r = player1Id m) (pvp_rankings w) = Some p1Ranking"
    and r2: "find (\<lambda>r. userId r = player2Id m) (pvp_rankings w) = Some p2Ranking"
    and win: "selectWinner m = (winner, wname)"
    and c1: "p1EloChange = calculateEloChange (of_int (elo p1Ranking)) (of_int (elo p2Ranking)) (p1Result m winner)"
    and c2: "p2EloChange = calculateEloChange (of_int (elo p2Ranking)) (of_int (elo p1Ranking)) (p2Result m winner)"
  shows "finalizeMatch matchId now w =
     clearMatch (player1Id m) (player2Id m)
       (emitToUser (player2Id m)
          (MatchResult (resultPayload matchId m winner wname p1EloChange p2EloChange (computeMatchDuration m)))
       (emitToUser (player1Id m)
          (MatchResult (resultPayload matchId m winner wname p1EloChange p2EloChange (computeMatchDuration m)))
          (w\<lparr>activeMatches := activeMatches w - {matchId},
             pvp_rankings :=
               update_first (\<lambda>r. userId r = player2Id m)
                 (\<lambda>r. (rankingUpdate (player2Id m) winner p2Ranking p2EloChange now r)\<lparr>updatedAt := now\<rparr>)
                 (update_first (\<lambda>r. userId r = player1Id m)
                    (\<lambda>r. (rankingUpdate (player1Id m) winner p1Ranking p1EloChange now r)\<lparr>updatedAt := now\<rparr>)
                    (pvp_rankings w)),
             pvp_matches :=
               update_first (\<lambda>x. m_id x = matchId)
                 (\<lambda>x. x\<lparr>winnerId := winner, winnerName := wname,
                        player1EloChange := p1EloChange, player2EloChange := p2EloChange,
                        matchDuration := computeMatchDuration m,
                        status := Completed, completedAt := Some now\<rparr>)
                 (pvp_matches w)\<rparr>)))"
  using f m r1 r2 win c1 c2
  by (simp add: finalizeMatch_def getMatch_ok getRanking_ok updateRanking_ok updateMatch_ok
      attempt_Inr Let_def)


lemma finalizeMatch_stored_match:
  assumes f: "faults w = []"
    and m: "find (\<lambda>x. m_id x = matchId) (pvp_matches w) = Some m"
    and r1: "find (\<lambda>r. userId r = player1Id m) (pvp_rankings w) = Some p1Ranking"
    and r2: "find (\<lambda>r. userId r = player2Id m) (pvp_rankings w) = Some p2Ranking"
  shows "find (\<lambda>x. m_id x = matchId) (pvp_matches (finalizeMatch matchId now w)) =
    Some (m\<lparr>winnerId := fst (selectWinner m), winnerName := snd (selectWinner m),
            player1EloChange := calculateEloChange (of_int (elo p1Ranking))
                                  (of_int (elo p2Ranking)) (p1Result m (fst (selectWinner m))),
            player2EloChange := calculateEloChange (of_int (elo p2Ranking))
                                  (of_int (elo p1Ranking)) (p2Result m (fst (selectWinner m))),
            matchDuration := computeMatchDuration m,
            status := Completed, completedAt := Some now\<rparr>)"
proof -
  have w: "selectWinner m = (fst (selectWinner m), snd (selectWinner m))" by simp
  show ?thesis
    by (subst finalizeMatch_ok [OF f m r1 r2 w refl refl])
       (simp add: clearMatch_def emitToUser_fields find_key_update_same m)
qed


lemma results_opposite:
  "player1Id m \<noteq> player2Id m \<Longrightarrow>
     p2Result m (fst (selectWinner m)) = 1 - p1Result m (fst (selectWinner m))"
  by (simp add: p1Result_def p2Result_def selectWinner_def)

lemma p1Result_values:
  "p1Result m winner = 0 \<or> p1Result m winner = 1 / 2 \<or> p1Result m winner = 1"
  by (simp add: p1Result_def)

lemma p1Result_by_score:
  "player1Id m \<noteq> player2Id m \<Longrightarrow>
   p1Result m (fst (selectWinner m)) =
     (if player1Score m > player2Score m then 1
      else if player2Score m > player1Score m then 0 else 1 / 2)"
  by (simp add: p1Result_def selectWinner_def)

subsection \<open>Completion and progress handlers when storage works\<close>

lemma storeStats_world:
  assumes f: "faults w = []"
    and m: "find (\<lambda>x. m_id x = matchId) (pvp_matches w) = Some m"
  shows "faults (snd (storeStats matchId uid m wpm acc w)) = []"
    and "pvp_rankings (snd (storeStats matchId uid m wpm acc w)) = pvp_rankings w"
    and "delivered (snd (storeStats matchId uid m wpm acc w)) = delivered w"
    and "find (\<lambda>x. m_id x = matchId) (pvp_matches (snd (storeStats matchId uid m wpm acc w))) =
           Some (if uid = player1Id m then m\<lparr>player1Wpm := wpm, player1Accuracy := acc\<rparr>
                 else if uid = player2Id m then m\<lparr>player2Wpm := wpm, player2Accuracy := acc\<rparr>
                 else m)"
proof -
  consider (p1) "uid = player1Id m" | (p2) "uid \<noteq> player1Id m" "uid = player2Id m"
    | (other) "uid \<noteq> player1Id m" "uid \<noteq> player2Id m" by blast
  then have "faults (snd (storeStats matchId uid m wpm acc w)) = []
    \<and> pvp_rankings (snd (storeStats matchId uid m wpm acc w)) = pvp_rankings w
    \<and> delivered (snd (storeStats matchId uid m wpm acc w)) = delivered w
    \<and> find (\<lambda>x. m_id x = matchId) (pvp_matches (snd (storeStats matchId uid m wpm acc w))) =
           Some (if uid = player1Id m then m\<lparr>player1Wpm := wpm, player1Accuracy := acc\<rparr>
                 else if uid = player2Id m then m\<lparr>player2Wpm := wpm, player2Accuracy := acc\<rparr>
                 else m)"
  proof cases
    case p1
    then show ?thesis using f m by (simp add: storeStats_ok find_key_update_same)
  next
    case p2
    then show ?thesis using f m by (simp add: storeStats_ok find_key_update_same)
  next
    case other
    then show ?thesis using f m by (simp add: storeStats_ok)
  qed
  then show "faults (snd (storeStats matchId uid m wpm acc w)) = []"
    and "pvp_rankings (snd (storeStats matchId uid m wpm acc w)) = pvp_rankings w"
    and "delivered (snd (storeStats matchId uid m wpm acc w)) = delivered w"
    and "find (\<lambda>x. m_id x = matchId) (pvp_matches (snd (storeStats matchId uid m wpm acc w))) =
           Some (if uid = player1Id m then m\<lparr>player1Wpm := wpm, player1Accuracy := acc\<rparr>
                 else if uid = player2Id m then m\<lparr>player2Wpm := wpm, player2Accuracy := acc\<rparr>
                 else m)"
    by simp_all
qed

lemma handleMatchComplete_ok:
  assumes f: "faults w = []"
    and m: "find (\<lambda>x. m_id x = matchId) (pvp_matches w) = Some m"
    and act: "status m = Active"
  shows "handleMatchComplete matchId uid wpm acc now w =
     (if 0 < (if uid = player1Id m then wpm else player1Wpm m)
       \<and> 0 < (if uid \<noteq> player1Id m \<and> uid = player2Id m then wpm else player2Wpm m)
      then finalizeMatch matchId now (snd (storeStats matchId uid m wpm acc w))
      else snd (storeStats matchId uid m wpm acc w))"
proof -
  define w' where "w' = snd (storeStats matchId uid m wpm acc w)"
  have st: "storeStats matchId uid m wpm acc w = (Inr (), w')"
    using f by (simp add: storeStats_ok w'_def)
  have g: "getMatch matchId w' = (Inr (Some
      (if uid = player1Id m then m\<lparr>player1Wpm := wpm, player1Accuracy := acc\<rparr>
       else if uid = player2Id m then m\<lparr>player2Wpm := wpm, player2Accuracy := acc\<rparr>
       else m)), w')"
    unfolding w'_def
    by (simp only: getMatch_ok [OF storeStats_world(1) [OF f m]] storeStats_world(4) [OF f m])
  have "handleMatchComplete matchId uid wpm acc now w =
      attempt (storeStats matchId uid m wpm acc w) (\<lambda>_ w2.
             attempt (getMatch matchId w2) (\<lambda>updatedMatch w3.
               case updatedMatch of
                 None \<Rightarrow> w3
               | Some u \<Rightarrow>
                   if player1Wpm u > 0 \<and> player2Wpm u > 0 then finalizeMatch matchId now w3
                   else w3))"
    using f m act by (simp add: handleMatchComplete_def getMatch_ok attempt_Inr)
  also have "\<dots> = (if 0 < (if uid = player1Id m then wpm else player1Wpm m)
       \<and> 0 < (if uid \<noteq> player1Id m \<and> uid = player2Id m then wpm else player2Wpm m)
      then finalizeMatch matchId now w' else w')"
    by (simp only: st attempt_Inr g) auto
  finally show ?thesis by (simp only: w'_def)
qed

subsection \<open>Sorting the leaderboard\<close>

lemma insort_elo_relabel:
  assumes "\<And>r. elo (h r) = elo r"
  shows "insort_key (\<lambda>r. - elo r) (h x) (map h ys) = map h (insort_key (\<lambda>r. - elo r) x ys)"
  by (induction ys) (simp_all add: assms)

lemma sort_elo_desc_relabel:
  assumes "\<And>r. elo (h r) = elo r"
  shows "sort_elo_desc (map h rs) = map h (sort_elo_desc rs)"
  unfolding sort_elo_desc_def
  by (induction rs) (simp_all add: insort_elo_relabel [OF assms])

subsection \<open>The queue between steps\<close>

lemma tryMatch_head_length:
  "length (queue (snd (tryMatch_head q))) =
     (if 2 \<le> length (queue q) then length (queue q) - 2 else length (queue q))"
  by (auto simp: tryMatch_head_def split: list.splits)

lemma join_at_rest: "at_rest q \<Longrightarrow> at_rest (snd (snd (join uid name sid now q)))"
proof -
  assume a: "at_rest q"
  show ?thesis
  proof (cases "uid \<in> userInQueue q")
    case True
    with a show ?thesis by (simp add: join_def)
  next
    case False
    let ?q1 = "q\<lparr>queue := queue q @ [\<lparr>q_userId = uid, q_username = name, socketId = sid, joinedAt = now\<rparr>],
                  userInQueue := insert uid (userInQueue q)\<rparr>"
    have "snd (snd (join uid name sid now q)) = snd (tryMatch_head ?q1)"
      using False by (simp add: join_def Let_def split: prod.splits)
    moreover have "length (queue (snd (tryMatch_head ?q1))) \<le> 1"
      using a by (cases "queue q") (auto simp: tryMatch_head_length at_rest_def)
    ultimately show ?thesis by (simp add: at_rest_def)
  qed
qed

lemma leave_at_rest: "at_rest q \<Longrightarrow> at_rest (snd (leave uid q))"
  by (auto simp: leave_def at_rest_def split: option.splits)

lemma cleanupEntries_length:
  "length (fst (cleanupEntries now entries members w)) \<le> length entries"
proof (induction entries arbitrary: members w)
  case Nil
  show ?case by simp
next
  case (Cons entry entries)
  show ?case
  proof (cases "now - joinedAt entry > QUEUE_TIMEOUT")
    case True
    then show ?thesis using Cons.IH [of "members - {q_userId entry}"] 
      by (simp add: Let_def le_SucI)
  next
    case False
    then show ?thesis using Cons.IH [of members w]
      by (cases "cleanupEntries now entries members w") (simp add: Let_def)
  qed
qed

lemma cleanup_at_rest: "at_rest q \<Longrightarrow> at_rest (fst (cleanupStaleEntries now q w))"
  using cleanupEntries_length [of now "queue q" "userInQueue q" w]
  by (cases "cleanupEntries now (queue q) (userInQueue q) w")
     (simp add: cleanupStaleEntries_def at_rest_def)

lemma resume_at_rest: "at_rest q \<Longrightarrow> at_rest (snd (tryMatch_resume r players q))"
  by (cases r) (simp_all add: tryMatch_resume_def tryMatch_head_length requeue_def at_rest_def)

lemma step_at_rest: "at_rest (pvpQueue s) \<Longrightarrow> at_rest (pvpQueue (step e s))"
proof (cases e)
  case (Join uid name sid now)
  assume "at_rest (pvpQueue s)"
  then show ?thesis using join_at_rest [of "pvpQueue s" uid name sid now]
    by (cases "join uid name sid now (pvpQueue s)") (simp add: Join)
next
  case (Leave uid)
  assume "at_rest (pvpQueue s)"
  then show ?thesis by (simp add: Leave leave_at_rest)
next
  case (Cleanup now)
  assume "at_rest (pvpQueue s)"
  then show ?thesis using cleanup_at_rest [of "pvpQueue s" now "world s"]
    by (cases "cleanupStaleEntries now (pvpQueue s) (world s)") (simp add: Cleanup)
next
  case (Settle i matchId now)
  assume a: "at_rest (pvpQueue s)"
  show ?thesis
  proof (cases "i < length (pending s) \<and> i < length (started s)")
    case True
    obtain r w' where c: "PvPQueue_createMatch (fst (pending s ! i)) (snd (pending s ! i))
                            matchId (started s ! i) (world s) = (r, w')"
      by (cases "PvPQueue_createMatch (fst (pending s ! i)) (snd (pending s ! i))
                   matchId (started s ! i) (world s)")
    obtain awaited q' where t: "tryMatch_resume r (pending s ! i) (pvpQueue s) = (awaited, q')"
      by (cases "tryMatch_resume r (pending s ! i) (pvpQueue s)")
    have "at_rest q'" using resume_at_rest [OF a, of r "pending s ! i"] by (simp add: t)
    then show ?thesis using True by (simp add: Settle Let_def c t)
  next
    case False
    then show ?thesis using a by (auto simp: Settle)
  qed
qed

lemma run_at_rest: "at_rest (pvpQueue s) \<Longrightarrow> at_rest (pvpQueue (run events s))"
  unfolding run_def by (induction events arbitrary: s) (simp_all add: step_at_rest)

lemma at_rest_distinct: "at_rest q \<Longrightarrow> distinct (map q_userId (queue q))"
  by (cases "queue q"; cases "tl (queue q)") (auto simp: at_rest_def)

lemma head_consistent: "consistent q \<Longrightarrow> consistent (snd (tryMatch_head q))"
  by (force simp: consistent_def tryMatch_head_def image_iff split: list.splits)

lemma join_consistent: "consistent q \<Longrightarrow> consistent (snd (snd (join uid name sid now q)))"
proof -
  assume c: "consistent q"
  show ?thesis
  proof (cases "uid \<in> userInQueue q")
    case True
    with c show ?thesis by (simp add: join_def)
  next
    case False
    let ?q1 = "q\<lparr>queue := queue q @ [\<lparr>q_userId = uid, q_username = name, socketId = sid, joinedAt = now\<rparr>],
                  userInQueue := insert uid (userInQueue q)\<rparr>"
    have "consistent ?q1" using c False by (auto simp: consistent_def)
    then have "consistent (snd (tryMatch_head ?q1))" by (rule head_consistent)
    moreover have "snd (snd (join uid name sid now q)) = snd (tryMatch_head ?q1)"
      using False by (simp add: join_def Let_def split: prod.splits)
    ultimately show ?thesis by simp
  qed
qed

lemma findIndex_remove:
  "findIndex (\<lambda>e. key e = u) xs = Some i \<Longrightarrow> distinct (map key xs) \<Longrightarrow>
     distinct (map key (take i xs @ drop (Suc i) xs))
     \<and> set (map key (take i xs @ drop (Suc i) xs)) = set (map key xs) - {u}"
proof (induction xs arbitrary: i)
  case Nil
  then show ?case by simp
next
  case (Cons x xs)
  show ?case
  proof (cases "key x = u")
    case True
    with Cons.prems show ?thesis by auto
  next
    case False
    with Cons.prems obtain j where j: "findIndex (\<lambda>e. key e = u) xs = Some j" and i: "i = Suc j"
      by auto
    from Cons.IH [OF j] Cons.prems(2) have
      d: "distinct (map key (take j xs @ drop (Suc j) xs))"
      and s: "set (map key (take j xs @ drop (Suc j) xs)) = set (map key xs) - {u}"
      by simp_all
    have nx: "key x \<notin> set (map key (take j xs @ drop (Suc j) xs))"
      using s Cons.prems(2) by auto
    show ?thesis
      unfolding i using d s nx False by auto
  qed
qed

lemma leave_consistent: "consistent q \<Longrightarrow> consistent (snd (leave uid q))"
proof (cases "findIndex (\<lambda>entry. q_userId entry = uid) (queue q)")
  case None
  assume "consistent q"
  with None show ?thesis by (simp add: leave_def)
next
  case (Some i)
  assume c: "consistent q"
  from findIndex_remove [OF Some] c show ?thesis
    by (simp add: leave_def Some consistent_def)
qed

lemma cleanupEntries_kept:
  "fst (cleanupEntries now entries members w) =
     filter (\<lambda>e. \<not> now - joinedAt e > QUEUE_TIMEOUT) entries"
proof (induction entries arbitrary: members w)
  case Nil
  show ?case by simp
next
  case (Cons entry entries)
  show ?case
  proof (cases "now - joinedAt entry > QUEUE_TIMEOUT")
    case True
    then show ?thesis using Cons.IH by (simp add: Let_def)
  next
    case False
    then show ?thesis using Cons.IH [of members w]
      by (cases "cleanupEntries now entries members w") (simp add: Let_def)
  qed
qed

lemma cleanupEntries_members:
  "fst (snd (cleanupEntries now entries members w)) =
     members - q_userId ` {e \<in> set entries. now - joinedAt e > QUEUE_TIMEOUT}"
proof (induction entries arbitrary: members w)
  case Nil
  show ?case by simp
next
  case (Cons entry entries)
  show ?case
  proof (cases "now - joinedAt entry > QUEUE_TIMEOUT")
    case True
    then show ?thesis using Cons.IH by (auto simp: Let_def)
  next
    case False
    then show ?thesis using Cons.IH [of members w]
      by (cases "cleanupEntries now entries members w") (auto simp: Let_def)
  qed
qed

lemma cleanup_consistent: "consistent q \<Longrightarrow> consistent (fst (cleanupStaleEntries now q w))"
proof -
  assume c: "consistent q"
  obtain kept members w' where r: "cleanupEntries now (queue q) (userInQueue q) w = (kept, members, w')"
    by (cases "cleanupEntries now (queue q) (userInQueue q) w")
  have k: "kept = filter (\<lambda>e. \<not> now - joinedAt e > QUEUE_TIMEOUT) (queue q)"
    using cleanupEntries_kept [of now "queue q" "userInQueue q" w] r by simp
  have ms: "members = userInQueue q - q_userId ` {e \<in> set (queue q). now - joinedAt e > QUEUE_TIMEOUT}"
    using cleanupEntries_members [of now "queue q" "userInQueue q" w] r by simp
  have inj: "inj_on q_userId (set (queue q))"
    using c by (simp add: consistent_def distinct_map)
  have d: "distinct (map q_userId kept)"
    using c unfolding k consistent_def by (simp add: distinct_map_filter)
  have "members = set (map q_userId kept)"
  proof -
    have "userInQueue q = q_userId ` set (queue q)" using c by (simp add: consistent_def)
    then show ?thesis unfolding ms k using inj by (auto simp: inj_on_def)
  qed
  with d show ?thesis by (simp add: cleanupStaleEntries_def r consistent_def)
qed

lemma step_consistent:
  assumes c: "consistent (pvpQueue s)" and ok: "created e s"
  shows "consistent (pvpQueue (step e s))"
proof (cases e)
  case (Join uid name sid now)
  then show ?thesis using join_consistent [OF c, of uid name sid now]
    by (cases "join uid name sid now (pvpQueue s)") simp
next
  case (Leave uid)
  then show ?thesis using c by (simp add: leave_consistent)
next
  case (Cleanup now)
  then show ?thesis using cleanup_consistent [OF c, of now "world s"]
    by (cases "cleanupStaleEntries now (pvpQueue s) (world s)") simp
next
  case (Settle i matchId now)
  show ?thesis
  proof (cases "i < length (pending s) \<and> i < length (started s)")
    case True
    obtain r w' where cm: "PvPQueue_createMatch (fst (pending s ! i)) (snd (pending s ! i))
                            matchId (started s ! i) (world s) = (r, w')"
      by (cases "PvPQueue_createMatch (fst (pending s ! i)) (snd (pending s ! i))
                   matchId (started s ! i) (world s)")
    from ok True have "\<not> isl r" by (simp add: created_def Settle cm)
    then obtain u where r: "r = Inr u" by (cases r) simp_all
    obtain awaited q' where t: "tryMatch_resume r (pending s ! i) (pvpQueue s) = (awaited, q')"
      by (cases "tryMatch_resume r (pending s ! i) (pvpQueue s)")
    have "q' = snd (tryMatch_head (pvpQueue s))" using t by (simp add: tryMatch_resume_def r)
    then have "consistent q'" using head_consistent [OF c] by simp
    then show ?thesis using True by (simp add: Settle Let_def cm t)
  next
    case False
    then show ?thesis using c by (auto simp: Settle)
  qed
qed

lemma run_consistent:
  "consistent (pvpQueue s) \<Longrightarrow> all_created events s \<Longrightarrow> consistent (pvpQueue (run events s))"
  unfolding run_def
  by (induction events arbitrary: s) (simp_all add: step_consistent)

lemma membership_exact:
  "all_created events (boot w) \<Longrightarrow>
     userInQueue (pvpQueue (run events (boot w)))
       = set (map q_userId (queue (pvpQueue (run events (boot w)))))"
proof -
  assume a: "all_created events (boot w)"
  have "consistent (pvpQueue (boot w))" by (simp add: boot_def consistent_def)
  from run_consistent [OF this a] show ?thesis by (simp add: consistent_def)
qed

lemmas queue_eval = run_def join_def tryMatch_head_def tryMatch_resume_def requeue_def
  suspended_def boot_def player_def PvPQueue_createMatch_def ensureRanking_def getRanking_def
  createRanking_def createMatch_def storage_call_def and_then_def newRanking_def newMatch_def
  emitToUser_def arena_def outage_def Let_def

section \<open>Elo deltas\<close>

text \<open>
  C1. For all ratings and every result, \<open>calculateEloChange\<close> returns
  \<open>round (K * (result - expected))\<close> with \<open>K = 32\<close> and
  \<open>expected = 1 / (1 + 10 powr ((opponentRating - playerRating) / 400))\<close>; the value is an
  integer, at distance at most one half from \<open>K * (result - expected)\<close>.
\<close>

theorem calculateEloChange_formula:
  "calculateEloChange playerRating opponentRating result =
     round (32 * (result - 1 / (1 + 10 powr ((opponentRating - playerRating) / 400))))
   \<and> \<bar>real_of_int (calculateEloChange playerRating opponentRating result)
        - 32 * (result - 1 / (1 + 10 powr ((opponentRating - playerRating) / 400)))\<bar> \<le> 1 / 2"
proof
  show "calculateEloChange playerRating opponentRating result =
     round (32 * (result - 1 / (1 + 10 powr ((opponentRating - playerRating) / 400))))"
    by (simp add: calculateEloChange_def getExpectedScore_def K_FACTOR_def Math_round_def
        round_def)
  show "\<bar>real_of_int (calculateEloChange playerRating opponentRating result)
        - 32 * (result - 1 / (1 + 10 powr ((opponentRating - playerRating) / 400)))\<bar> \<le> 1 / 2"
    unfolding calculateEloChange_def getExpectedScore_def K_FACTOR_def Math_round_def Let_def
    by linarith
qed

theorem calculateEloChange_formula_witness:
  "calculateEloChange 1000 1000 1 = 16 \<and> calculateEloChange 1000 1000 0 = - 16
   \<and> calculateEloChange 1500 1500 (1 / 2) = 0"
  using calculateEloChange_formula [of 1000 1000 1] calculateEloChange_formula [of 1000 1000 0]
    calculateEloChange_formula [of 1500 1500 "1 / 2"]
  by simp

section \<open>Finalization\<close>




text \<open>
  C4. When storage works, both rankings exist and the two players differ, the two Elo
  deltas that \<open>finalizeMatch\<close> stores are computed from the ratings read before the
  update, player 1's from \<open>(p1.elo, p2.elo, r)\<close> and player 2's from
  \<open>(p2.elo, p1.elo, 1 - r)\<close>, and they add up to zero.
\<close>

theorem finalizeMatch_elo_conservation:
  assumes f: "faults w = []"
    and m: "find (\<lambda>x. m_id x = matchId) (pvp_matches w) = Some m"
    and r1: "find (\<lambda>r. userId r = player1Id m) (pvp_rankings w) = Some p1Ranking"
    and r2: "find (\<lambda>r. userId r = player2Id m) (pvp_rankings w) = Some p2Ranking"
    and ne: "player1Id m \<noteq> player2Id m"
  shows "\<exists>stored r.
      find (\<lambda>x. m_id x = matchId) (pvp_matches (finalizeMatch matchId now w)) = Some stored
    \<and> r = (if player1Score m > player2Score m then 1
           else if player2Score m > player1Score m then 0 else 1 / 2)
    \<and> player1EloChange stored =
         calculateEloChange (of_int (elo p1Ranking)) (of_int (elo p2Ranking)) r
    \<and> player2EloChange stored =
         calculateEloChange (of_int (elo p2Ranking)) (of_int (elo p1Ranking)) (1 - r)
    \<and> player1EloChange stored + player2EloChange stored = 0"
proof -
  let ?r = "p1Result m (fst (selectWinner m))"
  note st = finalizeMatch_stored_match [OF f m r1 r2, of now]
  have opp: "p2Result m (fst (selectWinner m)) = 1 - ?r" by (rule results_opposite [OF ne])
  have zero: "calculateEloChange (of_int (elo p1Ranking)) (of_int (elo p2Ranking)) ?r
            + calculateEloChange (of_int (elo p2Ranking)) (of_int (elo p1Ranking)) (1 - ?r) = 0"
    by (rule elo_change_antisym [OF p1Result_values])
  show ?thesis
    apply (intro exI conjI)
        apply (rule st)
       apply (rule p1Result_by_score [OF ne])
      apply simp
     apply (simp add: opp)
    apply (simp add: opp zero)
    done
qed

theorem finalizeMatch_elo_conservation_witness:
  "\<exists>stored.
      find (\<lambda>x. m_id x = ''m1'')
        (pvp_matches (finalizeMatch ''m1'' 45000
           (arena [rated ''alice'' 1000, rated ''bob'' 1000] [played 80 95 70 97]))) = Some stored
    \<and> player1EloChange stored = 16 \<and> player2EloChange stored = - 16
    \<and> player1EloChange stored + player2EloChange stored = 0"
proof -
  let ?m = "played 80 95 70 97"
  let ?w = "arena [rated ''alice'' 1000, rated ''bob'' 1000] [?m]"
  have p1: "player1Id ?m = ''alice''" and p2: "player2Id ?m = ''bob''"
    by (simp_all add: played_def newMatch_def player_def)
  have f: "faults ?w = []" by (simp add: arena_def)
  have m: "find (\<lambda>x. m_id x = ''m1'') (pvp_matches ?w) = Some ?m"
    by (simp add: arena_def played_def newMatch_def)
  have r1: "find (\<lambda>r. userId r = player1Id ?m) (pvp_rankings ?w) = Some (rated ''alice'' 1000)"
    by (simp add: p1 arena_def rated_def newRanking_def player_def)
  have r2: "find (\<lambda>r. userId r = player2Id ?m) (pvp_rankings ?w) = Some (rated ''bob'' 1000)"
    by (simp add: p2 arena_def rated_def newRanking_def player_def)
  have ne: "player1Id ?m \<noteq> player2Id ?m" by (simp add: p1 p2)
  have s: "player1Score ?m > player2Score ?m"
    by (simp add: player1Score_weighted player2Score_weighted played_def score_80_95
        score_70_97)
  have e: "elo (rated ''alice'' 1000) = 1000" "elo (rated ''bob'' 1000) = 1000"
    by (simp_all add: rated_def)
  from finalizeMatch_elo_conservation [OF f m r1 r2 ne, of 45000] s
  show ?thesis
    using elo_equal_win [of 1000] elo_equal_loss [of 1000] by (simp add: e)
qed

text \<open>
  C2. The claim is that the rating written at finalization is \<open>max 0 (old + delta)\<close>.
  \<open>finalizeMatch\<close> writes \<open>old + delta\<close> as it is: when alice and bob are both rated 10
  and bob wins, alice's stored rating becomes \<open>- 6\<close>. The floor exists only in
  \<open>calculateNewRating\<close>, which gives 0 on the same ratings and which \<open>finalizeMatch\<close>
  does not call.
\<close>

theorem finalizeMatch_rating_not_floored:
  "map (\<lambda>r. (userId r, elo r))
     (pvp_rankings (finalizeMatch ''m1'' 45000
        (arena [rated ''alice'' 10, rated ''bob'' 10] [played 50 90 60 90])))
   = [(''alice'', - 6), (''bob'', 26)]
   \<and> max 0 (10 + calculateEloChange 10 10 0) = 0
   \<and> calculateNewRating 10 10 0 = 0"
  by (simp add: finalizeMatch_def getMatch_ok getRanking_ok updateRanking_ok updateMatch_ok
      attempt_Inr Let_def arena_def played_def newMatch_def player_def rated_def newRanking_def
      selectWinner_def player1Score_weighted player2Score_weighted score_50_90 score_60_90 p1Result_def p2Result_def
      emitToUser_fields clearMatch_def rankingUpdate_def calculateNewRating_def
      calculateEloChange_def getExpectedScore_def K_FACTOR_def Math_round_def)

text \<open>
  C6. The claim is that the stored \<open>matchDuration\<close> is
  \<open>(completedAt - createdAt) div 1000\<close> with \<open>completedAt\<close> the time of finalization.
  \<open>finalizeMatch\<close> computes the duration from the \<open>completedAt\<close> of the match as read at
  its start, which is still \<open>null\<close> for an active match, and so stores the fallback 60:
  a match created at time 0 and finalized at 45000 ms gets 60 instead of 45.
\<close>

theorem finalizeMatch_duration_not_elapsed_time:
  "map (\<lambda>x. (m_createdAt x, completedAt x, matchDuration x))
     (pvp_matches (finalizeMatch ''m1'' 45000
        (arena [rated ''alice'' 1000, rated ''bob'' 1000] [played 80 95 70 97])))
   = [(0, Some 45000, 60)]
   \<and> (45000 - 0) div 1000 = (45::int)"
  by (simp add: finalizeMatch_def getMatch_ok getRanking_ok updateRanking_ok updateMatch_ok
      attempt_Inr Let_def arena_def played_def newMatch_def player_def rated_def newRanking_def
      selectWinner_def player1Score_weighted player2Score_weighted score_80_95 score_70_97 p1Result_def p2Result_def
      emitToUser_fields clearMatch_def rankingUpdate_def computeMatchDuration_def)

section \<open>Completion barrier\<close>

text \<open>
  C10. On an active match whose players have rankings, when storage works,
  \<open>handleMatchComplete\<close> stores the sender's final stats and then calls \<open>finalizeMatch\<close>
  if and only if both stored \<open>wpm\<close> values are strictly positive: the match ends up
  completed in that case and stays active otherwise. The accuracy plays no part in the
  test. So while the stored \<open>wpm\<close> of a player is 0 (or less), whatever the accuracy, a
  completion event leaves the match active, changes no ranking and emits nothing.
\<close>

theorem handleMatchComplete_barrier_by_wpm:
  assumes f: "faults w = []"
    and m: "find (\<lambda>x. m_id x = matchId) (pvp_matches w) = Some m"
    and act: "status m = Active"
    and r1: "find (\<lambda>r. userId r = player1Id m) (pvp_rankings w) = Some p1Ranking"
    and r2: "find (\<lambda>r. userId r = player2Id m) (pvp_rankings w) = Some p2Ranking"
    and wpm1: "wpm1 = (if uid = player1Id m then wpm else player1Wpm m)"
    and wpm2: "wpm2 = (if uid \<noteq> player1Id m \<and> uid = player2Id m then wpm else player2Wpm m)"
  shows "handleMatchComplete matchId uid wpm acc now w =
     (if 0 < wpm1 \<and> 0 < wpm2
      then finalizeMatch matchId now (snd (storeStats matchId uid m wpm acc w))
      else snd (storeStats matchId uid m wpm acc w))
   \<and> (\<exists>stored.
        find (\<lambda>x. m_id x = matchId)
          (pvp_matches (handleMatchComplete matchId uid wpm acc now w)) = Some stored
      \<and> player1Wpm stored = wpm1 \<and> player2Wpm stored = wpm2
      \<and> (status stored = Completed \<longleftrightarrow> 0 < wpm1 \<and> 0 < wpm2)
      \<and> (status stored = Active \<longleftrightarrow> \<not> (0 < wpm1 \<and> 0 < wpm2)))
   \<and> (\<not> (0 < wpm1 \<and> 0 < wpm2) \<longrightarrow>
        pvp_rankings (handleMatchComplete matchId uid wpm acc now w) = pvp_rankings w
      \<and> delivered (handleMatchComplete matchId uid wpm acc now w) = delivered w)"
proof -
  define w' where "w' = snd (storeStats matchId uid m wpm acc w)"
  define u where "u = (if uid = player1Id m then m\<lparr>player1Wpm := wpm, player1Accuracy := acc\<rparr>
                 else if uid = player2Id m then m\<lparr>player2Wpm := wpm, player2Accuracy := acc\<rparr>
                 else m)"
  have f': "faults w' = []" unfolding w'_def by (rule storeStats_world(1) [OF f m])
  have m': "find (\<lambda>x. m_id x = matchId) (pvp_matches w') = Some u"
    unfolding w'_def u_def by (rule storeStats_world(4) [OF f m])
  have ids: "player1Id u = player1Id m" "player2Id u = player2Id m" "status u = Active"
    and wp: "player1Wpm u = wpm1" "player2Wpm u = wpm2"
    using act by (auto simp: u_def wpm1 wpm2)
  have r1': "find (\<lambda>r. userId r = player1Id u) (pvp_rankings w') = Some p1Ranking"
    unfolding w'_def by (simp add: ids storeStats_world(2) [OF f m] r1)
  have r2': "find (\<lambda>r. userId r = player2Id u) (pvp_rankings w') = Some p2Ranking"
    unfolding w'_def by (simp add: ids storeStats_world(2) [OF f m] r2)
  have h: "handleMatchComplete matchId uid wpm acc now w =
     (if 0 < wpm1 \<and> 0 < wpm2 then finalizeMatch matchId now w' else w')"
    unfolding w'_def wpm1 wpm2 by (rule handleMatchComplete_ok [OF f m act])
  have fin: "\<exists>stored. find (\<lambda>x. m_id x = matchId) (pvp_matches (finalizeMatch matchId now w'))
                 = Some stored
             \<and> player1Wpm stored = wpm1 \<and> player2Wpm stored = wpm2 \<and> status stored = Completed"
    by (simp add: finalizeMatch_stored_match [OF f' m' r1' r2'] wp)
  show ?thesis
  proof (cases "0 < wpm1 \<and> 0 < wpm2")
    case True
    with h have e: "handleMatchComplete matchId uid wpm acc now w = finalizeMatch matchId now w'"
      by simp
    from fin True show ?thesis
      unfolding e by (auto simp: w'_def)
  next
    case False
    with h have e: "handleMatchComplete matchId uid wpm acc now w = w'" by simp
    have "pvp_rankings w' = pvp_rankings w" "delivered w' = delivered w"
      unfolding w'_def by (rule storeStats_world(2) [OF f m], rule storeStats_world(3) [OF f m])
    with False m' ids wp show ?thesis
      unfolding e by (auto simp: w'_def)
  qed
qed

theorem handleMatchComplete_barrier_by_wpm_witness:
  "(\<exists>stored. find (\<lambda>x. m_id x = ''m1'')
        (pvp_matches (handleMatchComplete ''m1'' ''alice'' 0 100 45000
           (arena [rated ''alice'' 1000, rated ''bob'' 1000] [played 0 0 70 97]))) = Some stored
      \<and> player1Wpm stored = 0 \<and> player2Wpm stored = 70 \<and> status stored = Active)
   \<and> pvp_rankings (handleMatchComplete ''m1'' ''alice'' 0 100 45000
           (arena [rated ''alice'' 1000, rated ''bob'' 1000] [played 0 0 70 97]))
       = [rated ''alice'' 1000, rated ''bob'' 1000]
   \<and> delivered (handleMatchComplete ''m1'' ''alice'' 0 100 45000
           (arena [rated ''alice'' 1000, rated ''bob'' 1000] [played 0 0 70 97])) = []
   \<and> (\<exists>stored. find (\<lambda>x. m_id x = ''m1'')
        (pvp_matches (handleMatchComplete ''m1'' ''alice'' 80 0 45000
           (arena [rated ''alice'' 1000, rated ''bob'' 1000] [played 0 0 70 97]))) = Some stored
      \<and> player1Wpm stored = 80 \<and> player2Wpm stored = 70 \<and> status stored = Completed)"
proof -
  let ?m = "played 0 0 70 97"
  let ?w = "arena [rated ''alice'' 1000, rated ''bob'' 1000] [?m]"
  have p1: "player1Id ?m = ''alice''" and p2: "player2Id ?m = ''bob''"
    and w1: "player1Wpm ?m = 0" and w2: "player2Wpm ?m = 70"
    by (simp_all add: played_def newMatch_def player_def)
  have f: "faults ?w = []" by (simp add: arena_def)
  have m: "find (\<lambda>x. m_id x = ''m1'') (pvp_matches ?w) = Some ?m"
    by (simp add: arena_def played_def newMatch_def)
  have act: "status ?m = Active" by (simp add: played_def newMatch_def)
  have r1: "find (\<lambda>r. userId r = player1Id ?m) (pvp_rankings ?w) = Some (rated ''alice'' 1000)"
    by (simp add: p1 arena_def rated_def newRanking_def player_def)
  have r2: "find (\<lambda>r. userId r = player2Id ?m) (pvp_rankings ?w) = Some (rated ''bob'' 1000)"
    by (simp add: p2 arena_def rated_def newRanking_def player_def)
  have a0: "(0::real) = (if ''alice'' = player1Id ?m then 0 else player1Wpm ?m)"
    and a80: "(80::real) = (if ''alice'' = player1Id ?m then 80 else player1Wpm ?m)"
    and b0: "(70::real) = (if ''alice'' \<noteq> player1Id ?m \<and> ''alice'' = player2Id ?m then 0
                           else player2Wpm ?m)"
    and b80: "(70::real) = (if ''alice'' \<noteq> player1Id ?m \<and> ''alice'' = player2Id ?m then 80
                           else player2Wpm ?m)"
    by (simp_all add: p1 w2)
  have z: "pvp_rankings ?w = [rated ''alice'' 1000, rated ''bob'' 1000]" "delivered ?w = []"
    by (simp_all add: arena_def)
  from handleMatchComplete_barrier_by_wpm [OF f m act r1 r2 a0 b0, of 100 45000, THEN conjunct2]
    handleMatchComplete_barrier_by_wpm [OF f m act r1 r2 a80 b80, of 0 45000, THEN conjunct2]
  show ?thesis by (simp add: z) blast
qed

text \<open>
  A match that stays active is ended by its timeout: \<open>handleMatchTimeout\<close> marks it
  completed and leaves the rankings as they are.
\<close>

lemma handleMatchTimeout_completes:
  assumes f: "faults w = []"
    and m: "find (\<lambda>x. m_id x = matchId) (pvp_matches w) = Some m"
    and act: "status m = Active"
  shows "find (\<lambda>x. m_id x = matchId) (pvp_matches (handleMatchTimeout matchId now w))
           = Some (m\<lparr>status := Completed, completedAt := Some now\<rparr>)
       \<and> pvp_rankings (handleMatchTimeout matchId now w) = pvp_rankings w"
  using f m act
  by (simp add: handleMatchTimeout_def getMatch_ok updateMatch_ok attempt_Inr Let_def
      clearMatch_def emitToUser_fields find_key_update_same)

section \<open>Progress fan-out\<close>



section \<open>Leaderboard\<close>

text \<open>
  C9, as stated: the leaderboard is ordered by \<open>elo\<close> descending with ties broken by
  \<open>updatedAt\<close> ascending. The query sorts on \<open>elo\<close> only: two rankings of equal \<open>elo\<close>
  come back with the one updated later first.
\<close>

theorem getLeaderboard_tie_counterexample:
  "fst (getLeaderboard 50 0
          (arena [(rated ''alice'' 1000)\<lparr>updatedAt := 200\<rparr>,
                  (rated ''bob'' 1000)\<lparr>updatedAt := 100\<rparr>] []))
     = Inr ([(rated ''alice'' 1000)\<lparr>updatedAt := 200\<rparr>,
             (rated ''bob'' 1000)\<lparr>updatedAt := 100\<rparr>], 2)
   \<and> \<not> sorted_wrt ranks_before
         [(rated ''alice'' 1000)\<lparr>updatedAt := 200\<rparr>,
          (rated ''bob'' 1000)\<lparr>updatedAt := 100\<rparr>]"
  by (simp add: getLeaderboard_def storage_call_ok arena_def sort_elo_desc_def cursor_limit_def
      rated_def newRanking_def player_def ranks_before_def)

text \<open>
  C9, amended: when storage works and \<open>limit\<close> is at least 1, \<open>getLeaderboard\<close> returns
  the total number of rankings together with the slice, \<open>offset\<close> entries skipped and at
  most \<open>limit\<close> kept, of the rankings ordered by \<open>elo\<close> descending.
\<close>

theorem getLeaderboard_by_elo:
  assumes f: "faults w = []" and l: "1 \<le> limit"
  shows "\<exists>ordered.
      getLeaderboard limit offset w =
        (Inr (take limit (drop offset ordered), length (pvp_rankings w)), w)
    \<and> mset ordered = mset (pvp_rankings w)
    \<and> sorted_wrt (\<lambda>a b. elo a \<ge> elo b) ordered"
proof (intro exI conjI)
  show "getLeaderboard limit offset w =
        (Inr (take limit (drop offset (sort_elo_desc (pvp_rankings w))),
              length (pvp_rankings w)), w)"
    using f l by (simp add: getLeaderboard_def storage_call_ok cursor_limit_def)
  show "mset (sort_elo_desc (pvp_rankings w)) = mset (pvp_rankings w)"
    by (simp add: sort_elo_desc_def)
  have "sorted (map (\<lambda>r. - elo r) (sort_elo_desc (pvp_rankings w)))"
    by (simp add: sort_elo_desc_def)
  then show "sorted_wrt (\<lambda>a b. elo a \<ge> elo b) (sort_elo_desc (pvp_rankings w))"
    by (simp add: sorted_map)
qed

theorem getLeaderboard_by_elo_witness:
  "\<exists>ordered.
      getLeaderboard 2 1 (arena [rated ''alice'' 900, rated ''bob'' 1100, rated ''carol'' 1000] [])
        = (Inr (take 2 (drop 1 ordered), 3),
           arena [rated ''alice'' 900, rated ''bob'' 1100, rated ''carol'' 1000] [])
    \<and> mset ordered = mset [rated ''alice'' 900, rated ''bob'' 1100, rated ''carol'' 1000]
    \<and> sorted_wrt (\<lambda>a b. elo a \<ge> elo b) ordered"
proof -
  let ?w = "arena [rated ''alice'' 900, rated ''bob'' 1100, rated ''carol'' 1000] []"
  have f: "faults ?w = []" by (simp add: arena_def)
  have l: "1 \<le> (2::nat)" by simp
  have r: "pvp_rankings ?w = [rated ''alice'' 900, rated ''bob'' 1100, rated ''carol'' 1000]"
    by (simp add: arena_def)
  from getLeaderboard_by_elo [OF f l, of 1] show ?thesis by (simp add: r numeral_3_eq_3)
qed

text \<open>
  The query does not look at \<open>updatedAt\<close>: giving every ranking another \<open>updatedAt\<close>
  changes nothing in the leaderboard but those fields.
\<close>

lemma getLeaderboard_ignores_updatedAt:
  assumes f: "faults w = []"
  shows "fst (getLeaderboard limit offset
                (w\<lparr>pvp_rankings := map (\<lambda>r. r\<lparr>updatedAt := stamp r\<rparr>) (pvp_rankings w)\<rparr>))
         = map_sum id (\<lambda>(lb, total). (map (\<lambda>r. r\<lparr>updatedAt := stamp r\<rparr>) lb, total))
             (fst (getLeaderboard limit offset w))"
proof -
  have "sort_elo_desc (map (\<lambda>r. r\<lparr>updatedAt := stamp r\<rparr>) (pvp_rankings w))
        = map (\<lambda>r. r\<lparr>updatedAt := stamp r\<rparr>) (sort_elo_desc (pvp_rankings w))"
    by (rule sort_elo_desc_relabel) simp
  then show ?thesis
    using f by (simp add: getLeaderboard_def storage_call_ok cursor_limit_def drop_map take_map)
qed

section \<open>Matchmaking queue\<close>

text \<open>
  C5. The claim is that a failed match creation puts the two entries back at the head of
  the queue and ends the pair-off round. The \<open>catch\<close> block appends them at the tail,
  and the loop of \<open>tryMatch\<close> goes on at once. With alice and bob paired and storage
  down, the next state has an empty queue and an empty membership set, and the same pair
  is being created again. When carol has joined in the meantime, the next state pairs
  carol with alice and leaves bob alone in the queue.
\<close>

theorem failed_creation_not_restored:
  "pvpQueue (run [Join ''alice'' ''alice'' ''socket-alice'' 0, Join ''bob'' ''bob'' ''socket-bob'' 0,
                  Settle 0 ''m1'' 5] (boot outage))
     = \<lparr>queue = [], userInQueue = {}\<rparr>
   \<and> pending (run [Join ''alice'' ''alice'' ''socket-alice'' 0, Join ''bob'' ''bob'' ''socket-bob'' 0,
                  Settle 0 ''m1'' 5] (boot outage))
     = [(player ''alice'', player ''bob'')]
   \<and> queue (pvpQueue (run [Join ''alice'' ''alice'' ''socket-alice'' 0,
                  Join ''bob'' ''bob'' ''socket-bob'' 0,
                  Join ''carol'' ''carol'' ''socket-carol'' 0,
                  Settle 0 ''m1'' 5] (boot outage)))
     = [player ''bob'']
   \<and> pending (run [Join ''alice'' ''alice'' ''socket-alice'' 0,
                  Join ''bob'' ''bob'' ''socket-bob'' 0,
                  Join ''carol'' ''carol'' ''socket-carol'' 0,
                  Settle 0 ''m1'' 5] (boot outage))
     = [(player ''carol'', player ''alice'')]
   \<and> queue (requeue (player ''alice'') (player ''bob'')
         \<lparr>queue = [player ''carol''], userInQueue = {''carol''}\<rparr>)
     = [player ''carol'', player ''alice'', player ''bob'']"
  by (auto simp: queue_eval)

text \<open>
  C7. The claim is that a user id occurs at most once in the queue and that \<open>join\<close> of a
  user who is already present is a no-op. \<open>join\<close> tests the membership set, and the
  \<open>catch\<close> block of \<open>tryMatch\<close> (the defect of C5) re-adds its two entries without looking
  at the queue. When bob joins again while the match of alice and bob is being created
  and that creation fails, the queue holds bob twice, the loop pairs the newer bob with
  alice and deletes bob from the set: bob is left in the queue but not in the
  membership set. His next \<open>join\<close> is no no-op: it adds a second entry for bob, which
  the pair-off takes together with the first, and a match of bob against bob is created.
\<close>

theorem rejoin_after_failed_creation:
  "pvpQueue (run [Join ''alice'' ''alice'' ''socket-alice'' 0, Join ''bob'' ''bob'' ''socket-bob'' 0,
                  Join ''bob'' ''bob'' ''socket-bob'' 0, Settle 0 ''m1'' 5] (boot outage))
     = \<lparr>queue = [player ''bob''], userInQueue = {}\<rparr>
   \<and> \<not> isInQueue ''bob'' \<lparr>queue = [player ''bob''], userInQueue = {}\<rparr>
   \<and> join ''bob'' ''bob'' ''socket-bob'' 0 \<lparr>queue = [player ''bob''], userInQueue = {}\<rparr>
       = (0, Some (player ''bob'', player ''bob''), \<lparr>queue = [], userInQueue = {}\<rparr>)
   \<and> pending (run [Join ''alice'' ''alice'' ''socket-alice'' 0, Join ''bob'' ''bob'' ''socket-bob'' 0,
                  Join ''bob'' ''bob'' ''socket-bob'' 0, Settle 0 ''m1'' 5,
                  Join ''bob'' ''bob'' ''socket-bob'' 0] (boot outage))
     = [(player ''bob'', player ''alice''), (player ''bob'', player ''bob'')]
   \<and> map player1Id (pvp_matches (world
         (run [Join ''alice'' ''alice'' ''socket-alice'' 0, Join ''bob'' ''bob'' ''socket-bob'' 0,
               Join ''bob'' ''bob'' ''socket-bob'' 0, Settle 0 ''m1'' 5,
               Join ''bob'' ''bob'' ''socket-bob'' 0, Settle 1 ''m2'' 6] (boot outage))))
     = [''bob'']
   \<and> map player2Id (pvp_matches (world
         (run [Join ''alice'' ''alice'' ''socket-alice'' 0, Join ''bob'' ''bob'' ''socket-bob'' 0,
               Join ''bob'' ''bob'' ''socket-bob'' 0, Settle 0 ''m1'' 5,
               Join ''bob'' ''bob'' ''socket-bob'' 0, Settle 1 ''m2'' 6] (boot outage))))
     = [''bob'']"
  by (auto simp: queue_eval isInQueue_def)

text \<open>
  What the guard of \<open>join\<close> does ensure. Between two steps the queue never holds a user
  twice, whatever has failed before. In runs where no match creation fails, the
  membership set holds exactly the users in the queue (\<open>membership_exact\<close>), so that a
  second \<open>join\<close> changes nothing: alice joins twice, then bob joins, the pending match
  creation succeeds, and one match is created, alice against bob.
\<close>

lemma queue_distinct_between_steps:
  "distinct (map q_userId (queue (pvpQueue (run events (boot w)))))"
proof -
  have "at_rest (pvpQueue (boot w))" by (simp add: boot_def at_rest_def)
  then have "at_rest (pvpQueue (run events (boot w)))" by (rule run_at_rest)
  then show ?thesis by (rule at_rest_distinct)
qed

lemma duplicate_join_one_match:
  "map (\<lambda>x. (m_id x, player1Id x, player2Id x))
     (pvp_matches (world (run [Join ''alice'' ''alice'' ''socket-alice'' 0,
                  Join ''alice'' ''alice'' ''socket-alice'' 1,
                  Join ''bob'' ''bob'' ''socket-bob'' 2,
                  Settle 0 ''m1'' 5] (boot (arena [] [])))))
     = [(''m1'', ''alice'', ''bob'')]
   \<and> pending (run [Join ''alice'' ''alice'' ''socket-alice'' 0,
                  Join ''alice'' ''alice'' ''socket-alice'' 1,
                  Join ''bob'' ''bob'' ''socket-bob'' 2,
                  Settle 0 ''m1'' 5] (boot (arena [] []))) = []
   \<and> queue (pvpQueue (run [Join ''alice'' ''alice'' ''socket-alice'' 0,
                  Join ''alice'' ''alice'' ''socket-alice'' 1,
                  Join ''bob'' ''bob'' ''socket-bob'' 2,
                  Settle 0 ''m1'' 5] (boot (arena [] [])))) = []"
  by (simp add: queue_eval)

end
